theory Spec2Isabelle
  imports Main "HOL-Library.Sublist"
begin

section \<open>The socket manager of \<^verbatim>\<open>textsecure/SocketManager.ts\<close>\<close>

text \<open>
  The class \<^verbatim>\<open>SocketManager\<close> owns an authenticated and an unauthenticated
  connection process. Its methods are \<^verbatim>\<open>async\<close>; each one is embedded as the
  pieces that run without interruption: the part up to its first \<^verbatim>\<open>await\<close>
  (on the proxy agent, on a connection process, on a sleep), and the continuations, each a
  piece of its own that runs after the awaited promise has settled, after a connected
  resource has closed, or after a timer has fired. A state of the manager is what its fields
  hold between two such pieces, and any piece that is ready may be the next one.

  \<^verbatim>\<open>getProvisioningResource\<close> and \<^verbatim>\<open>connectExternalSocket\<close>
  touch no field but the cached proxy agent, which they fill as
  \<^verbatim>\<open>getProxyAgent\<close> below does for every caller; logging and the keep-alive
  \<^verbatim>\<open>check\<close> touch none. They are not modelled. Request handlers are called
  for their effect only (an exception of theirs is caught by the manager) and do not call
  back into the manager.
\<close>

subsection \<open>Data\<close>

datatype SocketStatus = CLOSED | CONNECTING | OPEN

record WebAPICredentials =
  username :: string
  password :: string

datatype TransportOption = Original | Libsignal | ShadowingHigh | ShadowingLow

datatype error = HTTPError int | Error string

text \<open>The events of the \<^verbatim>\<open>EventListener\<close> the manager extends, in emission order.\<close>

datatype emitted = AuthError int | StatusChange | Online | Offline

text \<open>
  An \<^verbatim>\<open>AbortableProcess<IWebSocketResource>\<close> is a number; the table
  \<open>procs\<close> holds which of the manager's calls created it and the state of its result
  promise. \<open>Connected\<close>: resolved with a resource; \<open>Closed\<close>: that resource has
  emitted \<^verbatim>\<open>close\<close>; \<open>Failed\<close>: rejected by the connection with that
  error; \<open>Aborted\<close>: rejected by \<^verbatim>\<open>abort()\<close> before it settled.
\<close>

datatype pkind = AuthenticatedProc | UnauthenticatedProc | UnauthenticatedLibsignalProc

datatype pstate = Pending | Connected | Closed | Failed error | Aborted

text \<open>
  The transport-level connections opened: a web socket with the name and the query of the
  connect call, or a libsignal connection with its name.
\<close>

datatype conn = WebSocketConn string "(string \<times> string) list" | LibsignalConn string

datatype release_channel = Stable | Alpha | Beta | Staging

datatype timeouts = FIBONACCI_TIMEOUTS | EXTENDED_FIBONACCI_TIMEOUTS

text \<open>
  Modelled from the spec: the class \<^verbatim>\<open>BackOff\<close> of \<^verbatim>\<open>util/BackOff\<close>
  is missing. The spec's BackoffState is a step index into a fixed delay sequence that
  \<^verbatim>\<open>next()\<close> advances and \<^verbatim>\<open>reset(sequence?)\<close> zeroes, swapping the
  sequence when one is given. The delays themselves (and their jitter) are not modelled.
\<close>

record BackOff =
  bo_timeouts :: timeouts
  bo_count :: nat

definition getAndIncrement :: "BackOff \<Rightarrow> BackOff" where
  "getAndIncrement b = b\<lparr>bo_count := bo_count b + 1\<rparr>"

definition reset :: "timeouts option \<Rightarrow> BackOff \<Rightarrow> BackOff" where
  "reset ts b =
     (case ts of None \<Rightarrow> b\<lparr>bo_count := 0\<rparr>
      | Some t \<Rightarrow> b\<lparr>bo_timeouts := t, bo_count := 0\<rparr>)"

record SocketManagerOptions =
  url :: string
  artCreatorUrl :: string
  certificateAuthority :: string
  version :: string
  proxyUrl :: "string option"
  opt_hasStoriesDisabled :: bool

text \<open>
  What the manager calls and the repository's sources here do not hold, taken as parameters:
  \<^verbatim>\<open>createProxyAgent\<close>, the release channel that \<^verbatim>\<open>util/version\<close>
  reads off a version string, \<^verbatim>\<open>window.Signal.RemoteConfig.isEnabled\<close>,
  \<^verbatim>\<open>URL.parse\<close> (its \<^verbatim>\<open>hostname\<close> and \<^verbatim>\<open>path\<close>),
  \<^verbatim>\<open>Bytes.fromString\<close> and the answer of a resource to a request.
\<close>

type_synonym bytes = "nat list"

record WebSocketRequest =
  verb :: string
  path :: string
  body :: "bytes option"
  headers :: "(string \<times> string) list"
  timeout :: "nat option"

record collaborators =
  createProxyAgent :: "string \<Rightarrow> error + nat"
  releaseChannel :: "string \<Rightarrow> release_channel"
  isEnabled :: "string \<Rightarrow> bool"
  parseHostname :: "string \<Rightarrow> string option"
  parsePath :: "string \<Rightarrow> string option"
  fromString :: "string \<Rightarrow> bytes"
  sendRequest :: "nat \<Rightarrow> WebSocketRequest \<Rightarrow> error + nat"

text \<open>
  A call suspended at \<^verbatim>\<open>await this.getProxyAgent()\<close>, with the locals it
  resumes with: \<^verbatim>\<open>authenticate\<close> with the credentials it was given, or
  \<^verbatim>\<open>getUnauthenticatedResource\<close>; and what the promise it awaits settles to.
\<close>

datatype suspension =
    AuthenticateAtProxy WebAPICredentials "error + nat option"
  | GetUnauthenticatedAtProxy "error + nat option"

text \<open>
  The fields of the class, then what the manager has done to the outside: the process table,
  the next fresh number (processes, abort controllers and timers are numbered from one
  counter), the calls suspended at the proxy agent in the order they resume (each with whether
  the reconnect helper awaits it), the calls suspended at \<^verbatim>\<open>await process.getResult()\<close>
  on the process they have created (each named by that process), the reconnect sleeps and
  expiration timers still pending, the connections opened, the events emitted, the calls of
  \<^verbatim>\<open>handleRequest\<close> made, the requests sent.
\<close>

record manager =
  backOff :: BackOff
  authenticated :: "nat option"
  unauthenticated :: "nat option"
  unauthenticatedExpirationTimer :: "nat option"
  credentials :: "WebAPICredentials option"
  lazyProxyAgent :: "(error + nat) option"
  status :: SocketStatus
  requestHandlers :: "nat list"
  incomingRequestQueue :: "nat list"
  isNavigatorOffline :: bool
  privIsOnline :: "bool option"
  isRemotelyExpired :: bool
  hasStoriesDisabled :: bool
  reconnectController :: "nat option"
  options :: SocketManagerOptions
  procs :: "nat \<rightharpoonup> pkind \<times> pstate"
  nextId :: nat
  suspended :: "(suspension \<times> bool) list"
  awaiting :: "nat list"
  sleeping :: "nat list"
  expirationTimers :: "(nat \<times> nat) list"
  connects :: "conn list"
  events :: "emitted list"
  handled :: "(nat \<times> nat) list"
  sent :: "(nat \<times> WebSocketRequest) list"

definition new_manager :: "SocketManagerOptions \<Rightarrow> manager" where
  "new_manager opts =
     \<lparr>backOff = \<lparr>bo_timeouts = FIBONACCI_TIMEOUTS, bo_count = 0\<rparr>,
      authenticated = None, unauthenticated = None,
      unauthenticatedExpirationTimer = None, credentials = None, lazyProxyAgent = None,
      status = CLOSED, requestHandlers = [], incomingRequestQueue = [],
      isNavigatorOffline = False, privIsOnline = None, isRemotelyExpired = False,
      hasStoriesDisabled = opt_hasStoriesDisabled opts, reconnectController = None,
      options = opts, procs = Map.empty, nextId = 0, suspended = [], awaiting = [],
      sleeping = [],
      expirationTimers = [],
      connects = [], events = [], handled = [], sent = []\<rparr>"

subsection \<open>Status and dropping a process\<close>

definition emit :: "emitted \<Rightarrow> manager \<Rightarrow> manager" where
  "emit e s = s\<lparr>events := events s @ [e]\<rparr>"

definition getStatus :: "manager \<Rightarrow> SocketStatus" where
  "getStatus s = status s"

text \<open>\<^verbatim>\<open>!this.privIsOnline\<close> holds for \<^verbatim>\<open>undefined\<close> and for \<^verbatim>\<open>false\<close>.\<close>

definition setStatus :: "SocketStatus \<Rightarrow> manager \<Rightarrow> manager" where
  "setStatus st s =
     (if status s = st then s
      else let s1 = emit StatusChange (s\<lparr>status := st\<rparr>)
           in if status s1 = OPEN \<and> privIsOnline s1 \<noteq> Some True
              then emit Online (s1\<lparr>privIsOnline := Some True\<rparr>)
              else s1)"

definition dropAuthenticated :: "nat \<Rightarrow> manager \<Rightarrow> manager" where
  "dropAuthenticated p s =
     (if authenticated s \<noteq> Some p then s
      else setStatus CLOSED (s\<lparr>incomingRequestQueue := [], authenticated := None\<rparr>))"

definition dropUnauthenticated :: "nat \<Rightarrow> manager \<Rightarrow> manager" where
  "dropUnauthenticated p s =
     (if unauthenticated s \<noteq> Some p then s
      else let s1 = s\<lparr>unauthenticated := None\<rparr>
           in case unauthenticatedExpirationTimer s1 of
                None \<Rightarrow> s1
              | Some t \<Rightarrow> s1\<lparr>expirationTimers := filter (\<lambda>(t', _). t' \<noteq> t) (expirationTimers s1),
                              unauthenticatedExpirationTimer := None\<rparr>)"

text \<open>
  Modelled from the spec: the class \<^verbatim>\<open>AbortableProcess\<close> of
  \<^verbatim>\<open>util/AbortableProcess\<close> is missing. The spec's \<^verbatim>\<open>abort()\<close>
  cancels the in-flight attempt or, if already connected, instructs the resource to shut
  down: a pending result is rejected, and the result of a process that has connected stays
  what it is, while its resource emits \<^verbatim>\<open>close\<close> later.
\<close>

definition abort :: "nat \<Rightarrow> manager \<Rightarrow> manager" where
  "abort p s =
     (case procs s p of
        Some (k, Pending) \<Rightarrow> s\<lparr>procs := (procs s)(p \<mapsto> (k, Aborted))\<rparr>
      | _ \<Rightarrow> s)"

text \<open>
  \<^verbatim>\<open>this.reconnectController?.abort()\<close>: the sleep of the reconnect helper that owns
  the controller is rejected, and its \<^verbatim>\<open>finally\<close> block clears the field.
\<close>

definition abortReconnect :: "manager \<Rightarrow> manager" where
  "abortReconnect s =
     (case reconnectController s of
        None \<Rightarrow> s
      | Some c \<Rightarrow> s\<lparr>sleeping := removeAll c (sleeping s), reconnectController := None\<rparr>)"

subsection \<open>Request handlers and the queue of incoming requests\<close>

text \<open>
  \<^verbatim>\<open>requestHandlers\<close> is a JavaScript \<^verbatim>\<open>Set\<close>: it iterates in insertion
  order, and adding a member again changes nothing.
\<close>

definition set_add :: "nat \<Rightarrow> nat list \<Rightarrow> nat list" where
  "set_add h hs = (if h \<in> set hs then hs else hs @ [h])"

definition queueOrHandleRequest :: "nat \<Rightarrow> manager \<Rightarrow> manager" where
  "queueOrHandleRequest req s =
     (if length (requestHandlers s) = 0
      then s\<lparr>incomingRequestQueue := incomingRequestQueue s @ [req]\<rparr>
      else s\<lparr>handled := handled s @ map (\<lambda>h. (h, req)) (requestHandlers s)\<rparr>)"

definition registerRequestHandler :: "nat \<Rightarrow> manager \<Rightarrow> manager" where
  "registerRequestHandler h s =
     (let s1 = s\<lparr>requestHandlers := set_add h (requestHandlers s)\<rparr>;
          queue = incomingRequestQueue s1
      in if length queue = 0 then s1
         else fold queueOrHandleRequest queue (s1\<lparr>incomingRequestQueue := []\<rparr>))"

definition unregisterRequestHandler :: "nat \<Rightarrow> manager \<Rightarrow> manager" where
  "unregisterRequestHandler h s = s\<lparr>requestHandlers := removeAll h (requestHandlers s)\<rparr>"

subsection \<open>Proxy agent, transport option, connecting\<close>

text \<open>
  \<^verbatim>\<open>getProxyAgent\<close>: a non-empty \<^verbatim>\<open>proxyUrl\<close> is truthy. The promise is
  cached whether it resolves or rejects; awaiting a rejected one throws.
\<close>

definition getProxyAgent :: "collaborators \<Rightarrow> manager \<Rightarrow> (error + nat option) \<times> manager" where
  "getProxyAgent env s =
     (let s1 = (case proxyUrl (options s) of
                  None \<Rightarrow> s
                | Some u \<Rightarrow> if u \<noteq> [] \<and> lazyProxyAgent s = None
                            then s\<lparr>lazyProxyAgent := Some (createProxyAgent env u)\<rparr> else s)
      in case lazyProxyAgent s1 of
           None \<Rightarrow> (Inr None, s1)
         | Some (Inl e) \<Rightarrow> (Inl e, s1)
         | Some (Inr a) \<Rightarrow> (Inr (Some a), s1))"

text \<open>
  Modelled from the spec: \<^verbatim>\<open>isStaging\<close>, \<^verbatim>\<open>isAlpha\<close> and
  \<^verbatim>\<open>isBeta\<close> of \<^verbatim>\<open>util/version\<close> are missing. The spec's environment
  classifier tells which release channel (stable, alpha, beta, staging) a build is of.
\<close>

definition isStaging :: "collaborators \<Rightarrow> string \<Rightarrow> bool" where
  "isStaging env v = (releaseChannel env v = Staging)"

definition isAlpha :: "collaborators \<Rightarrow> string \<Rightarrow> bool" where
  "isAlpha env v = (releaseChannel env v = Alpha)"

definition isBeta :: "collaborators \<Rightarrow> string \<Rightarrow> bool" where
  "isBeta env v = (releaseChannel env v = Beta)"

definition endsWith :: "string \<Rightarrow> string \<Rightarrow> bool" where
  "endsWith str sfx = suffix sfx str"

definition transportOption :: "collaborators \<Rightarrow> SocketManagerOptions \<Rightarrow> nat option \<Rightarrow> TransportOption" where
  "transportOption env opts proxyAgent =
     (let hostname = parseHostname env (url opts)
      in if proxyAgent \<noteq> None
            \<or> (case hostname of None \<Rightarrow> True | Some h \<Rightarrow> \<not> endsWith h ''signal.org'')
         then Original
         else if isStaging env (version opts) then Libsignal
         else if isAlpha env (version opts)
              then (if isEnabled env ''desktop.experimentalTransportEnabled.alpha''
                    then Libsignal else ShadowingHigh)
         else if isBeta env (version opts)
              then (if isEnabled env ''desktop.experimentalTransportEnabled.beta''
                    then ShadowingHigh else ShadowingLow)
         else if isEnabled env ''desktop.experimentalTransportEnabled.prod''
              then ShadowingLow else Original)"

text \<open>
  \<^verbatim>\<open>connectResource\<close> opens one web socket; with a transport option other than
  \<open>Original\<close>, \<^verbatim>\<open>connectWithShadowing\<close> opens a libsignal connection beside it.
\<close>

definition connectResource ::
  "pkind \<Rightarrow> string \<Rightarrow> (string \<times> string) list \<Rightarrow> TransportOption option \<Rightarrow> manager \<Rightarrow> nat \<times> manager" where
  "connectResource k name query topt s =
     (let p = nextId s;
          plain = (topt = None \<or> topt = Some Original)
      in (p, s\<lparr>nextId := p + 1,
               procs := (procs s)(p \<mapsto> (k, Pending)),
               connects := connects s @ (if plain then [WebSocketConn name query]
                                         else [WebSocketConn name query, LibsignalConn name])\<rparr>))"

definition connectLibsignalUnauthenticated :: "manager \<Rightarrow> nat \<times> manager" where
  "connectLibsignalUnauthenticated s =
     (let p = nextId s
      in (p, s\<lparr>nextId := p + 1,
               procs := (procs s)(p \<mapsto> (UnauthenticatedLibsignalProc, Pending)),
               connects := connects s @ [LibsignalConn ''unauthenticated'']\<rparr>))"

subsection \<open>authenticate\<close>

text \<open>
  How a piece of a call ends: it threw; it returned; it awaits or returns the result of a
  process and changes nothing once that has settled; it awaits the result of the process it
  has just created and goes on once that has settled; or it is suspended at the proxy agent.
\<close>

datatype outcome =
    Threw error
  | Returned
  | AwaitsExisting nat
  | AwaitsNew nat
  | Suspends suspension

text \<open>
  The closure \<^verbatim>\<open>reconnect\<close> up to its \<^verbatim>\<open>await sleep(...)\<close>: a reconnect is
  scheduled when a new sleep is pending.
\<close>

definition reconnect_helper :: "manager \<Rightarrow> manager" where
  "reconnect_helper s =
     (if isRemotelyExpired s then s
      else let c = nextId s
           in s\<lparr>backOff := getAndIncrement (backOff s),
                nextId := c + 1,
                reconnectController := Some c,
                sleeping := sleeping s @ [c]\<rparr>)"

definition sameCredentials :: "WebAPICredentials option \<Rightarrow> WebAPICredentials \<Rightarrow> bool" where
  "sameCredentials stored creds =
     (case stored of
        None \<Rightarrow> False
      | Some c \<Rightarrow> username c = username creds \<and> password c = password creds)"

text \<open>
  \<^verbatim>\<open>authenticate\<close> up to \<^verbatim>\<open>await this.getProxyAgent()\<close>: the new
  credentials are stored and the status is \<open>CONNECTING\<close> before the call is suspended.
\<close>

definition authenticate :: "collaborators \<Rightarrow> WebAPICredentials \<Rightarrow> manager \<Rightarrow> outcome \<times> manager" where
  "authenticate env creds s =
     (if isRemotelyExpired s then (Threw (HTTPError 0), s)
      else if username creds = [] \<and> password creds = [] then (Returned, s)
      else case (if sameCredentials (credentials s) creds then authenticated s else None) of
             Some existing \<Rightarrow> (AwaitsExisting existing, s)
           | None \<Rightarrow>
               let s1 = setStatus CONNECTING (s\<lparr>credentials := Some creds\<rparr>);
                   (agent, s2) = getProxyAgent env s1
               in (Suspends (AuthenticateAtProxy creds agent), s2))"

text \<open>
  \<^verbatim>\<open>authenticate\<close> from the proxy agent on: the process is created, the previous
  one is aborted, and the call awaits the result of the new one.
\<close>

definition authenticate_resume :: "WebAPICredentials \<Rightarrow> error + nat option \<Rightarrow> manager \<Rightarrow> outcome \<times> manager" where
  "authenticate_resume creds agent s =
     (case agent of
        Inl e \<Rightarrow> (Threw e, s)
      | Inr proxyAgent \<Rightarrow>
          let (p, s1) = connectResource AuthenticatedProc ''authenticated''
                          [(''login'', username creds), (''password'', password creds)] None s;
              s2 = (case authenticated s1 of None \<Rightarrow> s1 | Some old \<Rightarrow> abort old s1)
          in (AwaitsNew p, s2\<lparr>authenticated := Some p\<rparr>))"

text \<open>
  The branch for unchanged credentials, after \<^verbatim>\<open>await this.authenticated.getResult()\<close>:
  the \<^verbatim>\<open>catch\<close> logs, and the call returns either way.
\<close>

definition authenticate_existing_settled :: "(error + nat) \<Rightarrow> manager \<Rightarrow> outcome \<times> manager" where
  "authenticate_existing_settled result s =
     (case result of Inl e \<Rightarrow> (Returned, s) | Inr r \<Rightarrow> (Returned, s))"

text \<open>\<^verbatim>\<open>await process.getResult()\<close> resolved: the rest of the \<^verbatim>\<open>try\<close> and what follows it.\<close>

definition authenticate_connected :: "nat \<Rightarrow> manager \<Rightarrow> manager" where
  "authenticate_connected p s =
     (let s1 = setStatus OPEN s
      in s1\<lparr>backOff := reset None (backOff s1)\<rparr>)"

text \<open>\<^verbatim>\<open>await process.getResult()\<close> rejected: the \<^verbatim>\<open>catch\<close> block.\<close>

definition authenticate_failed :: "nat \<Rightarrow> error \<Rightarrow> manager \<Rightarrow> manager" where
  "authenticate_failed p err s =
     (if authenticated s \<noteq> Some p then s
      else let s1 = dropAuthenticated p s
           in case err of
                HTTPError code \<Rightarrow>
                  if code = 401 \<or> code = 403 then emit (AuthError code) s1
                  else if \<not> (code \<ge> 500 \<and> code \<le> 599) \<and> code \<noteq> - 1 then s1
                  else reconnect_helper
                         (if code = - 1 \<and> privIsOnline s1 \<noteq> Some False
                          then emit Offline (s1\<lparr>privIsOnline := Some False\<rparr>)
                          else s1)
              | Error msg \<Rightarrow> reconnect_helper s1)"

text \<open>The listener for \<^verbatim>\<open>close\<close> that \<^verbatim>\<open>authenticate\<close> adds to the connected resource.\<close>

definition authenticated_close_listener :: "nat \<Rightarrow> int \<Rightarrow> manager \<Rightarrow> manager" where
  "authenticated_close_listener p code s =
     (if authenticated s \<noteq> Some p then s
      else let s1 = dropAuthenticated p s
           in if code = 3000 then s1
              else if code = 4409 then s1
              else reconnect_helper s1)"

text \<open>
  What a caller that awaits a call does with the outcome of a piece of it. A suspended call
  is queued, at the proxy agent or at the process it has created. An exception is caught by
  the reconnect helper, which starts over; any other caller lets it pass.
\<close>

definition await_call :: "bool \<Rightarrow> outcome \<times> manager \<Rightarrow> manager" where
  "await_call helper r =
     (case r of
        (Suspends x, s) \<Rightarrow> s\<lparr>suspended := suspended s @ [(x, helper)]\<rparr>
      | (AwaitsNew p, s) \<Rightarrow> s\<lparr>awaiting := awaiting s @ [p]\<rparr>
      | (Threw e, s) \<Rightarrow> (if helper then reconnect_helper s else s)
      | (_, s) \<Rightarrow> s)"

text \<open>
  The closure \<^verbatim>\<open>reconnect\<close> after its sleep has ended.
  \<^verbatim>\<open>strictAssert\<close> on missing credentials throws out of the helper.
\<close>

definition reconnect_helper_wake :: "collaborators \<Rightarrow> nat \<Rightarrow> manager \<Rightarrow> manager" where
  "reconnect_helper_wake env c s =
     (let s1 = s\<lparr>sleeping := removeAll c (sleeping s),
                 reconnectController :=
                   (if reconnectController s = Some c then None else reconnectController s)\<rparr>
      in if authenticated s1 \<noteq> None then s1
         else case credentials s1 of
                None \<Rightarrow> s1
              | Some creds \<Rightarrow> await_call True (authenticate env creds s1))"

subsection \<open>The other public methods\<close>

text \<open>
  \<^verbatim>\<open>getAuthenticatedResource\<close> up to its first \<^verbatim>\<open>await\<close>; it goes on to
  return the result of \<^verbatim>\<open>this.authenticated\<close> once \<^verbatim>\<open>authenticate\<close> is done.
  So do \<^verbatim>\<open>reconnect\<close>, \<^verbatim>\<open>onHasStoriesDisabledChange\<close> and
  \<^verbatim>\<open>onNavigatorOnline\<close> below, which end with the \<^verbatim>\<open>authenticate\<close>
  they await.
\<close>

definition getAuthenticatedResource :: "collaborators \<Rightarrow> manager \<Rightarrow> outcome \<times> manager" where
  "getAuthenticatedResource env s =
     (case authenticated s of
        Some p \<Rightarrow> (AwaitsExisting p, s)
      | None \<Rightarrow>
          (case credentials s of
             None \<Rightarrow> (Threw (Error ''Missing credentials''), s)
           | Some creds \<Rightarrow> authenticate env creds s))"

text \<open>\<^verbatim>\<open>getUnauthenticatedResource\<close> up to \<^verbatim>\<open>await this.getProxyAgent()\<close>.\<close>

definition getUnauthenticatedResource :: "collaborators \<Rightarrow> manager \<Rightarrow> outcome \<times> manager" where
  "getUnauthenticatedResource env s =
     (case unauthenticated s of
        Some p \<Rightarrow> (AwaitsExisting p, s)
      | None \<Rightarrow>
          if isRemotelyExpired s then (Threw (HTTPError 0), s)
          else let (agent, s1) = getProxyAgent env s
               in (Suspends (GetUnauthenticatedAtProxy agent), s1))"

text \<open>
  \<^verbatim>\<open>getUnauthenticatedResource\<close> from the proxy agent on. With the libsignal
  transport it returns the result of the process as it is; otherwise it awaits it.
\<close>

definition getUnauthenticatedResource_resume ::
  "collaborators \<Rightarrow> error + nat option \<Rightarrow> manager \<Rightarrow> outcome \<times> manager" where
  "getUnauthenticatedResource_resume env agent s =
     (case agent of
        Inl e \<Rightarrow> (Threw e, s)
      | Inr proxyAgent \<Rightarrow>
          let topt = transportOption env (options s) proxyAgent
          in if topt = Libsignal
             then let (p, s1) = connectLibsignalUnauthenticated s
                  in (AwaitsExisting p, s1\<lparr>unauthenticated := Some p\<rparr>)
             else let (p, s1) = connectResource UnauthenticatedProc ''unauthenticated'' []
                                  (Some topt) s
                  in (AwaitsNew p, s1\<lparr>unauthenticated := Some p\<rparr>))"

text \<open>
  \<^verbatim>\<open>await this.unauthenticated.getResult()\<close> rejected: the \<^verbatim>\<open>catch\<close>
  of \<^verbatim>\<open>getUnauthenticatedResource\<close>, which rethrows. When it resolved, the call
  adds the listener below to the resource and changes no field.
\<close>

definition unauthenticated_failed :: "nat \<Rightarrow> manager \<Rightarrow> manager" where
  "unauthenticated_failed p s = dropUnauthenticated p s"

definition unauthenticated_close_listener :: "nat \<Rightarrow> manager \<Rightarrow> manager" where
  "unauthenticated_close_listener p s =
     (if unauthenticated s \<noteq> Some p then s else dropUnauthenticated p s)"

text \<open>
  \<^verbatim>\<open>startUnauthenticatedExpirationTimer\<close>, called by \<^verbatim>\<open>fetch\<close> with the
  resource it got (named by the process that resolved to it): the timer remembers the process
  it was started for.
\<close>

definition startUnauthenticatedExpirationTimer :: "nat \<Rightarrow> manager \<Rightarrow> (error + unit) \<times> manager" where
  "startUnauthenticatedExpirationTimer expected s =
     (case unauthenticated s of
        None \<Rightarrow> (Inl (Error ''Unauthenticated socket must be connected''), s)
      | Some p \<Rightarrow>
          if p \<noteq> expected then (Inl (Error ''Unauthenticated resource should be the same''), s)
          else if unauthenticatedExpirationTimer s \<noteq> None then (Inr (), s)
          else let t = nextId s
               in (Inr (), s\<lparr>nextId := t + 1,
                             unauthenticatedExpirationTimer := Some t,
                             expirationTimers := expirationTimers s @ [(t, p)]\<rparr>))"

text \<open>The callback of that timer; the resource it shuts down emits its \<^verbatim>\<open>close\<close> later.\<close>

definition expiration_timer_fired :: "collaborators \<Rightarrow> nat \<Rightarrow> nat \<Rightarrow> manager \<Rightarrow> manager" where
  "expiration_timer_fired env t p s =
     (let s1 = s\<lparr>expirationTimers := filter (\<lambda>(t', _). t' \<noteq> t) (expirationTimers s)\<rparr>
      in if unauthenticated s1 \<noteq> Some p then s1
         else await_call False (getUnauthenticatedResource env (dropUnauthenticated p s1)))"

definition reconnect :: "collaborators \<Rightarrow> manager \<Rightarrow> outcome \<times> manager" where
  "reconnect env s =
     (let s1 = (case authenticated s of
                  None \<Rightarrow> s
                | Some a \<Rightarrow> dropAuthenticated a (abort a s));
          s2 = (case unauthenticated s of
                  None \<Rightarrow> s1
                | Some u \<Rightarrow> dropUnauthenticated u (abort u s1))
      in case credentials s2 of
           None \<Rightarrow> (Returned, s2)
         | Some creds \<Rightarrow>
             authenticate env creds (abortReconnect (s2\<lparr>backOff := reset None (backOff s2)\<rparr>)))"

definition onHasStoriesDisabledChange :: "collaborators \<Rightarrow> bool \<Rightarrow> manager \<Rightarrow> outcome \<times> manager" where
  "onHasStoriesDisabledChange env newValue s =
     (if hasStoriesDisabled s = newValue then (Returned, s)
      else reconnect env (s\<lparr>hasStoriesDisabled := newValue\<rparr>))"

definition onNavigatorOnline :: "collaborators \<Rightarrow> manager \<Rightarrow> outcome \<times> manager" where
  "onNavigatorOnline env s =
     (let s1 = s\<lparr>isNavigatorOffline := False,
                 backOff := reset (Some FIBONACCI_TIMEOUTS) (backOff s)\<rparr>
      in case credentials s1 of
           None \<Rightarrow> (Returned, s1)
         | Some creds \<Rightarrow> authenticate env creds (abortReconnect s1))"

text \<open>\<^verbatim>\<open>check\<close> forces keep-alives on the resources and changes no field.\<close>

definition onNavigatorOffline :: "manager \<Rightarrow> manager" where
  "onNavigatorOffline s =
     s\<lparr>isNavigatorOffline := True,
       backOff := reset (Some EXTENDED_FIBONACCI_TIMEOUTS) (backOff s)\<rparr>"

definition onRemoteExpiration :: "manager \<Rightarrow> manager" where
  "onRemoteExpiration s = abortReconnect (s\<lparr>isRemotelyExpired := True\<rparr>)"

definition logout :: "manager \<Rightarrow> manager" where
  "logout s =
     (let s1 = (case authenticated s of
                  None \<Rightarrow> s
                | Some a \<Rightarrow> dropAuthenticated a (abort a s))
      in s1\<lparr>credentials := None\<rparr>)"

subsection \<open>fetch\<close>

text \<open>
  \<^verbatim>\<open>isAuthenticated(headers)\<close>: the \<^verbatim>\<open>Authorization\<close> header is taken as
  already read, \<open>None\<close> when it is missing or is not a Basic one with a payload, and the
  decoded user name and password otherwise.
\<close>

definition isAuthenticated :: "(string \<times> string) option \<Rightarrow> manager \<Rightarrow> bool" where
  "isAuthenticated basic s =
     (case credentials s of
        None \<Rightarrow> False
      | Some c \<Rightarrow>
          (case basic of
             None \<Rightarrow> False
           | Some (u, pw) \<Rightarrow> u = username c \<and> pw = password c))"

text \<open>The \<^verbatim>\<open>body\<close> of a \<^verbatim>\<open>RequestInit\<close>, by the tests \<^verbatim>\<open>fetch\<close> makes on it;
  \<open>BodyOther\<close> carries what \<^verbatim>\<open>typeof\<close> gives.\<close>

datatype request_body =
    BodyUndefined
  | BodyUint8Array bytes
  | BodyArrayBuffer bytes
  | BodyString string
  | BodyOther string

record RequestInit =
  init_method :: "string option"
  init_basic :: "(string \<times> string) option"
  init_headers :: "(string \<times> string) list"
  init_body :: request_body
  init_timeout :: "nat option"

text \<open>\<^verbatim>\<open>fetch\<close> up to the \<^verbatim>\<open>await\<close> on the resource it needs.\<close>

definition fetch_resource :: "collaborators \<Rightarrow> RequestInit \<Rightarrow> manager \<Rightarrow> outcome \<times> manager" where
  "fetch_resource env init s =
     (if isAuthenticated (init_basic init) s
      then getAuthenticatedResource env s
      else getUnauthenticatedResource env s)"

definition bodyBytes :: "collaborators \<Rightarrow> request_body \<Rightarrow> error + bytes option" where
  "bodyBytes env b =
     (case b of
        BodyUndefined \<Rightarrow> Inr None
      | BodyUint8Array bs \<Rightarrow> Inr (Some bs)
      | BodyArrayBuffer bs \<Rightarrow> Inl (Error ''Unsupported body type: ArrayBuffer'')
      | BodyString str \<Rightarrow> Inr (Some (fromString env str))
      | BodyOther ty \<Rightarrow> Inl (Error (''Unsupported body type: '' @ ty)))"

text \<open>
  \<^verbatim>\<open>fetch\<close> from the line after it has its resource (the process \<open>r\<close> stands for
  the resource it resolved to): the path, the body, the request.
\<close>

definition fetch_send :: "collaborators \<Rightarrow> nat \<Rightarrow> string \<Rightarrow> RequestInit \<Rightarrow> manager \<Rightarrow> (error + nat) \<times> manager" where
  "fetch_send env r u init s =
     (case parsePath env u of
        None \<Rightarrow> (Inl (Error ''Fetch can't have empty path''), s)
      | Some pth \<Rightarrow>
          if pth = [] then (Inl (Error ''Fetch can't have empty path''), s)
          else (case bodyBytes env (init_body init) of
                  Inl e \<Rightarrow> (Inl e, s)
                | Inr bb \<Rightarrow>
                    let req = \<lparr>verb = (case init_method init of None \<Rightarrow> ''GET'' | Some m \<Rightarrow> m),
                               path = pth, body = bb, headers = init_headers init,
                               timeout = init_timeout init\<rparr>
                    in (sendRequest env r req, s\<lparr>sent := sent s @ [(r, req)]\<rparr>)))"

subsection \<open>Runs of the manager\<close>

text \<open>
  What can happen to a manager, in any order: a call of a public method; the call suspended
  first at the proxy agent resuming; a pending process settling; the call that awaits a
  settled process continuing (\<open>Continues\<close>, named by that process); a connected
  resource closing or pushing a request; a sleep or a timer ending. A call that awaits a
  process does not continue in the piece that settles it: other calls may run in between.
  An event the state does not allow (a process that is not pending, a call that does not
  await or whose process is still pending, a sleep that is not pending) changes nothing.
\<close>

datatype event =
    Authenticate WebAPICredentials
  | Resumes
  | Continues nat
  | ProcessConnected nat
  | ProcessFailed nat error
  | ResourceClosed nat int
  | IncomingRequest nat nat
  | SleepEnded nat
  | ExpirationTimerFired nat
  | GetAuthenticatedResource
  | GetUnauthenticatedResource
  | Fetch RequestInit
  | FetchArmsTimer nat
  | FetchSends nat string RequestInit
  | RegisterRequestHandler nat
  | UnregisterRequestHandler nat
  | HasStoriesDisabledChange bool
  | Reconnect
  | NavigatorOnline
  | NavigatorOffline
  | RemoteExpiration
  | Logout

definition resume :: "collaborators \<Rightarrow> manager \<Rightarrow> manager" where
  "resume env s =
     (case suspended s of
        [] \<Rightarrow> s
      | (x, helper) # rest \<Rightarrow>
          await_call helper
            (case x of
               AuthenticateAtProxy creds agent \<Rightarrow>
                 authenticate_resume creds agent (s\<lparr>suspended := rest\<rparr>)
             | GetUnauthenticatedAtProxy agent \<Rightarrow>
                 getUnauthenticatedResource_resume env agent (s\<lparr>suspended := rest\<rparr>)))"

definition settle :: "nat \<Rightarrow> pkind \<Rightarrow> pstate \<Rightarrow> manager \<Rightarrow> manager" where
  "settle p k st s = s\<lparr>procs := (procs s)(p \<mapsto> (k, st))\<rparr>"

text \<open>The result promise of a pending process resolves, or rejects.\<close>

definition process_connected :: "nat \<Rightarrow> manager \<Rightarrow> manager" where
  "process_connected p s =
     (case procs s p of
        Some (k, Pending) \<Rightarrow> settle p k Connected s
      | _ \<Rightarrow> s)"

definition process_failed :: "nat \<Rightarrow> error \<Rightarrow> manager \<Rightarrow> manager" where
  "process_failed p err s =
     (case procs s p of
        Some (k, Pending) \<Rightarrow> settle p k (Failed err) s
      | _ \<Rightarrow> s)"

text \<open>
  The call suspended at \<^verbatim>\<open>await process.getResult()\<close> on the process \<open>p\<close>
  it created goes on, once that process has settled: \<^verbatim>\<open>authenticate\<close> with the
  rest of its \<^verbatim>\<open>try\<close> or with its \<^verbatim>\<open>catch\<close>,
  \<^verbatim>\<open>getUnauthenticatedResource\<close> likewise. A process that was aborted while
  pending has rejected; one that was aborted after it had connected has resolved all the same.
\<close>

definition continues :: "nat \<Rightarrow> manager \<Rightarrow> manager" where
  "continues p s =
     (if p \<notin> set (awaiting s) then s
      else let s1 = s\<lparr>awaiting := removeAll p (awaiting s)\<rparr>
           in case procs s p of
                Some (AuthenticatedProc, Connected) \<Rightarrow> authenticate_connected p s1
              | Some (AuthenticatedProc, Failed err) \<Rightarrow> authenticate_failed p err s1
              | Some (AuthenticatedProc, Aborted) \<Rightarrow>
                  authenticate_failed p (Error ''aborted'') s1
              | Some (UnauthenticatedProc, Connected) \<Rightarrow> s1
              | Some (UnauthenticatedProc, Failed err) \<Rightarrow> unauthenticated_failed p s1
              | Some (UnauthenticatedProc, Aborted) \<Rightarrow> unauthenticated_failed p s1
              | _ \<Rightarrow> s)"

text \<open>
  A connected resource emits \<^verbatim>\<open>close\<close> to the listener it has. The event is
  dispatched in a task of its own, so the call that awaited the process has continued and
  added its listener by then. The libsignal resource of
  \<^verbatim>\<open>getUnauthenticatedResource\<close> is given none.
\<close>

definition resource_closed :: "nat \<Rightarrow> int \<Rightarrow> manager \<Rightarrow> manager" where
  "resource_closed p code s =
     (if p \<in> set (awaiting s) then s
      else case procs s p of
        Some (AuthenticatedProc, Connected) \<Rightarrow>
          authenticated_close_listener p code (settle p AuthenticatedProc Closed s)
      | Some (UnauthenticatedProc, Connected) \<Rightarrow>
          unauthenticated_close_listener p (settle p UnauthenticatedProc Closed s)
      | Some (UnauthenticatedLibsignalProc, Connected) \<Rightarrow>
          settle p UnauthenticatedLibsignalProc Closed s
      | _ \<Rightarrow> s)"

definition incoming_request :: "nat \<Rightarrow> nat \<Rightarrow> manager \<Rightarrow> manager" where
  "incoming_request p req s =
     (case procs s p of
        Some (AuthenticatedProc, Connected) \<Rightarrow> queueOrHandleRequest req s
      | _ \<Rightarrow> s)"

text \<open>
  The two later pieces of \<^verbatim>\<open>fetch\<close>, which run once the process it awaited has
  resolved to a resource.
\<close>

definition fetch_arms_timer :: "nat \<Rightarrow> manager \<Rightarrow> manager" where
  "fetch_arms_timer r s =
     (case procs s r of
        Some (k, Connected) \<Rightarrow> snd (startUnauthenticatedExpirationTimer r s)
      | _ \<Rightarrow> s)"

definition fetch_sends :: "collaborators \<Rightarrow> nat \<Rightarrow> string \<Rightarrow> RequestInit \<Rightarrow> manager \<Rightarrow> manager" where
  "fetch_sends env r u init s =
     (case procs s r of
        Some (k, Connected) \<Rightarrow> snd (fetch_send env r u init s)
      | _ \<Rightarrow> s)"

definition step :: "collaborators \<Rightarrow> event \<Rightarrow> manager \<Rightarrow> manager" where
  "step env ev s =
     (case ev of
        Authenticate creds \<Rightarrow> await_call False (authenticate env creds s)
      | Resumes \<Rightarrow> resume env s
      | Continues p \<Rightarrow> continues p s
      | ProcessConnected p \<Rightarrow> process_connected p s
      | ProcessFailed p err \<Rightarrow> process_failed p err s
      | ResourceClosed p code \<Rightarrow> resource_closed p code s
      | IncomingRequest p req \<Rightarrow> incoming_request p req s
      | SleepEnded c \<Rightarrow> (if c \<in> set (sleeping s) then reconnect_helper_wake env c s else s)
      | ExpirationTimerFired t \<Rightarrow>
          (case map_of (expirationTimers s) t of
             None \<Rightarrow> s
           | Some p \<Rightarrow> expiration_timer_fired env t p s)
      | GetAuthenticatedResource \<Rightarrow> await_call False (getAuthenticatedResource env s)
      | GetUnauthenticatedResource \<Rightarrow> await_call False (getUnauthenticatedResource env s)
      | Fetch init \<Rightarrow> await_call False (fetch_resource env init s)
      | FetchArmsTimer r \<Rightarrow> fetch_arms_timer r s
      | FetchSends r u init \<Rightarrow> fetch_sends env r u init s
      | RegisterRequestHandler h \<Rightarrow> registerRequestHandler h s
      | UnregisterRequestHandler h \<Rightarrow> unregisterRequestHandler h s
      | HasStoriesDisabledChange b \<Rightarrow> await_call False (onHasStoriesDisabledChange env b s)
      | Reconnect \<Rightarrow> await_call False (reconnect env s)
      | NavigatorOnline \<Rightarrow> await_call False (onNavigatorOnline env s)
      | NavigatorOffline \<Rightarrow> onNavigatorOffline s
      | RemoteExpiration \<Rightarrow> onRemoteExpiration s
      | Logout \<Rightarrow> logout s)"

definition run :: "collaborators \<Rightarrow> event list \<Rightarrow> manager \<Rightarrow> manager" where
  "run env evs s = fold (step env) evs s"

text \<open>The authenticated process holds a resource that connected.\<close>

definition holdsConnected :: "manager \<Rightarrow> bool" where
  "holdsConnected s =
     (case authenticated s of
        None \<Rightarrow> False
      | Some p \<Rightarrow> procs s p = Some (AuthenticatedProc, Connected))"

text \<open>A call of \<^verbatim>\<open>authenticate\<close> is suspended at the proxy agent.\<close>

fun auth_entry :: "suspension \<times> bool \<Rightarrow> (WebAPICredentials \<times> (error + nat option)) option" where
  "auth_entry (AuthenticateAtProxy creds agent, helper) = Some (creds, agent)"
| "auth_entry (GetUnauthenticatedAtProxy agent, helper) = None"

definition suspendedAuthenticate :: "manager \<Rightarrow> (WebAPICredentials \<times> (error + nat option)) list" where
  "suspendedAuthenticate s = List.map_filter auth_entry (suspended s)"

definition authSuspended :: "manager \<Rightarrow> bool" where
  "authSuspended s = (suspendedAuthenticate s \<noteq> [])"

text \<open>
  The call of \<^verbatim>\<open>authenticate\<close> that created the authenticated process has yet
  to continue after \<^verbatim>\<open>await process.getResult()\<close>.
\<close>

definition currentAwaited :: "manager \<Rightarrow> bool" where
  "currentAwaited s =
     (case authenticated s of
        None \<Rightarrow> False
      | Some p \<Rightarrow> p \<in> set (awaiting s))"

text \<open>
  The event is a call of \<^verbatim>\<open>authenticate\<close> continuing after its process has
  connected, when that process is no longer the authenticated one: it has been dropped or
  replaced since it connected. The \<^verbatim>\<open>catch\<close> beside it asks
  \<^verbatim>\<open>this.authenticated !== process\<close>; the \<^verbatim>\<open>try\<close> does not,
  and sets the status to \<open>OPEN\<close>.
\<close>

definition superseded :: "event \<Rightarrow> manager \<Rightarrow> bool" where
  "superseded ev s =
     (case ev of
        Continues p \<Rightarrow>
          p \<in> set (awaiting s) \<and> authenticated s \<noteq> Some p
          \<and> procs s p = Some (AuthenticatedProc, Connected)
      | _ \<Rightarrow> False)"

text \<open>A run in which no call continues for a process that has been superseded.\<close>

fun orderly :: "collaborators \<Rightarrow> event list \<Rightarrow> manager \<Rightarrow> bool" where
  "orderly env [] s = True"
| "orderly env (ev # evs) s = (\<not> superseded ev s \<and> orderly env evs (step env ev s))"

subsection \<open>The spec's tables\<close>

text \<open>
  The transport variant as the spec words it: a proxy or an unrecognized host name gives the
  legacy variant; otherwise staging gives the experimental transport, alpha gives it unless
  opted out (then high-intensity shadowing), beta gives high-intensity shadowing unless opted
  out (then low-intensity), and production gives low-intensity shadowing or the legacy variant
  by a remote flag.
\<close>

definition spec_transport_variant ::
  "bool \<Rightarrow> bool \<Rightarrow> release_channel \<Rightarrow> bool \<Rightarrow> bool \<Rightarrow> bool \<Rightarrow> TransportOption" where
  "spec_transport_variant proxy recognized channel alphaOptOut betaOptOut prodFlag =
     (if proxy \<or> \<not> recognized then Original
      else case channel of
             Staging \<Rightarrow> Libsignal
           | Alpha \<Rightarrow> (if alphaOptOut then ShadowingHigh else Libsignal)
           | Beta \<Rightarrow> (if betaOptOut then ShadowingLow else ShadowingHigh)
           | Stable \<Rightarrow> (if prodFlag then ShadowingLow else Original))"

text \<open>The body types the spec allows: absent, a byte sequence, text.\<close>

definition accepted_body :: "request_body \<Rightarrow> bool" where
  "accepted_body b =
     (case b of
        BodyUndefined \<Rightarrow> True
      | BodyUint8Array bs \<Rightarrow> True
      | BodyString str \<Rightarrow> True
      | BodyArrayBuffer bs \<Rightarrow> False
      | BodyOther ty \<Rightarrow> False)"

subsection \<open>The invariants of the runs\<close>

definition proxyResult :: "collaborators \<Rightarrow> manager \<Rightarrow> error + nat option" where
  "proxyResult env s = fst (getProxyAgent env s)"

text \<open>
  What every run keeps: an authenticated process that holds a connected resource has the
  status \<open>OPEN\<close>, unless a call of \<^verbatim>\<open>authenticate\<close> is suspended at
  the proxy agent or the call that created the process has yet to continue; the authenticated
  process has connected, or the call that created it has yet to continue and the process is
  pending or has failed; numbers from \<open>nextId\<close> on are unused; a manager that has an
  authenticated process has a proxy agent that resolved (or needs none); a suspended
  \<^verbatim>\<open>authenticate\<close> awaits what the cached agent settles to.
\<close>

definition inv :: "collaborators \<Rightarrow> manager \<Rightarrow> bool" where
  "inv env s \<longleftrightarrow>
     (holdsConnected s \<longrightarrow> status s = OPEN \<or> authSuspended s \<or> currentAwaited s)
   \<and> (\<forall>p. authenticated s = Some p \<longrightarrow>
          procs s p = Some (AuthenticatedProc, Connected)
        \<or> p \<in> set (awaiting s)
          \<and> (procs s p = Some (AuthenticatedProc, Pending)
             \<or> (\<exists>e. procs s p = Some (AuthenticatedProc, Failed e))))
   \<and> (\<forall>p. nextId s \<le> p \<longrightarrow> procs s p = None)
   \<and> (authenticated s \<noteq> None \<longrightarrow> (\<exists>a. proxyResult env s = Inr a))
   \<and> (\<forall>c a. (c, a) \<in> set (suspendedAuthenticate s) \<longrightarrow> a = proxyResult env s)"

text \<open>A status \<open>OPEN\<close> comes with an authenticated process.\<close>

definition openHasProcess :: "manager \<Rightarrow> bool" where
  "openHasProcess s \<longleftrightarrow> (status s = OPEN \<longrightarrow> authenticated s \<noteq> None)"

text \<open>Stored credentials are not empty.\<close>

definition storedCredentialsGiven :: "manager \<Rightarrow> bool" where
  "storedCredentialsGiven s \<longleftrightarrow>
     (\<forall>c. credentials s = Some c \<longrightarrow> username c \<noteq> [] \<or> password c \<noteq> [])"

subsection \<open>A concrete manager\<close>

definition example_options :: SocketManagerOptions where
  "example_options =
     \<lparr>url = ''https://chat.signal.org'', artCreatorUrl = ''https://create.signal.art'',
      certificateAuthority = ''ca'', version = ''7.0.0'', proxyUrl = None,
      opt_hasStoriesDisabled = False\<rparr>"

definition example_env :: collaborators where
  "example_env =
     \<lparr>createProxyAgent = (\<lambda>u. Inr 0),
      releaseChannel = (\<lambda>v. Stable),
      isEnabled = (\<lambda>flag. False),
      parseHostname = (\<lambda>u. Some ''chat.signal.org''),
      parsePath = (\<lambda>u. Some ''/v1/config''),
      fromString = (\<lambda>str. map of_char str),
      sendRequest = (\<lambda>r req. Inr 200)\<rparr>"

definition example_credentials :: WebAPICredentials where
  "example_credentials = \<lparr>username = ''alice'', password = ''secret''\<rparr>"

text \<open>A manager whose first authenticated process (number 0) is still connecting.\<close>

definition connecting_manager :: manager where
  "connecting_manager =
     run example_env [Authenticate example_credentials, Resumes] (new_manager example_options)"

text \<open>The same manager after the server has expired it.\<close>

definition expired_connecting_manager :: manager where
  "expired_connecting_manager =
     run example_env [Authenticate example_credentials, Resumes, RemoteExpiration]
       (new_manager example_options)"

text \<open>
  A manager whose authenticated process has connected, and whose call of
  \<^verbatim>\<open>authenticate\<close> has continued.
\<close>

definition connected_events :: "event list" where
  "connected_events =
     [Authenticate example_credentials, Resumes, ProcessConnected 0, Continues 0]"

definition other_credentials :: WebAPICredentials where
  "other_credentials = \<lparr>username = ''alice'', password = ''changed''\<rparr>"

text \<open>
  That manager after \<^verbatim>\<open>authenticate\<close> has been called with the other
  credentials and is suspended at the proxy agent.
\<close>

definition reauthenticating_events :: "event list" where
  "reauthenticating_events = connected_events @ [Authenticate other_credentials]"

text \<open>
  The first process connects; before the call that created it continues,
  \<^verbatim>\<open>authenticate\<close> is called with the other credentials and is suspended at
  the proxy agent; then the first call continues, and the second one resumes and replaces
  the process.
\<close>

definition overtaken_events :: "event list" where
  "overtaken_events =
     [Authenticate example_credentials, Resumes, ProcessConnected 0,
      Authenticate other_credentials, Continues 0, Resumes]"

text \<open>
  The first process connects; before the call that created it continues,
  \<^verbatim>\<open>logout\<close> is called; then the call continues.
\<close>

definition logged_out_events :: "event list" where
  "logged_out_events =
     [Authenticate example_credentials, Resumes, ProcessConnected 0, Logout, Continues 0]"

text \<open>
  A manager that connected its unauthenticated process (number 0) and was expired afterwards.
\<close>

definition expired_with_unauthenticated :: manager where
  "expired_with_unauthenticated =
     run example_env
       [GetUnauthenticatedResource, Resumes, ProcessConnected 0, Continues 0, RemoteExpiration]
       (new_manager example_options)"

text \<open>A \<^verbatim>\<open>RequestInit\<close> with the body \<open>b\<close>.\<close>

definition example_init :: "request_body \<Rightarrow> RequestInit" where
  "example_init b =
     \<lparr>init_method = Some ''PUT'', init_basic = None, init_headers = [],
      init_body = b, init_timeout = None\<rparr>"

section \<open>Properties\<close>

subsection \<open>What each operation leaves unchanged\<close>

lemma proxyResult_cong:
  "options s' = options s \<Longrightarrow> lazyProxyAgent s' = lazyProxyAgent s \<Longrightarrow>
   proxyResult env s' = proxyResult env s"
  by (simp add: proxyResult_def getProxyAgent_def Let_def split: option.splits sum.splits)

lemma setStatus_frame [simp]:
  "status (setStatus st s) = st"
  "authenticated (setStatus st s) = authenticated s"
  "unauthenticated (setStatus st s) = unauthenticated s"
  "procs (setStatus st s) = procs s"
  "nextId (setStatus st s) = nextId s"
  "credentials (setStatus st s) = credentials s"
  "isRemotelyExpired (setStatus st s) = isRemotelyExpired s"
  "connects (setStatus st s) = connects s"
  "options (setStatus st s) = options s"
  "lazyProxyAgent (setStatus st s) = lazyProxyAgent s"
  "suspended (setStatus st s) = suspended s"
  "awaiting (setStatus st s) = awaiting s"
  "incomingRequestQueue (setStatus st s) = incomingRequestQueue s"
  "requestHandlers (setStatus st s) = requestHandlers s"
  "handled (setStatus st s) = handled s"
  "sleeping (setStatus st s) = sleeping s"
  "reconnectController (setStatus st s) = reconnectController s"
  "backOff (setStatus st s) = backOff s"
  by (simp_all add: setStatus_def emit_def Let_def)

lemma emit_frame [simp]:
  "status (emit e s) = status s"
  "authenticated (emit e s) = authenticated s"
  "unauthenticated (emit e s) = unauthenticated s"
  "procs (emit e s) = procs s"
  "nextId (emit e s) = nextId s"
  "credentials (emit e s) = credentials s"
  "isRemotelyExpired (emit e s) = isRemotelyExpired s"
  "connects (emit e s) = connects s"
  "options (emit e s) = options s"
  "lazyProxyAgent (emit e s) = lazyProxyAgent s"
  "suspended (emit e s) = suspended s"
  "awaiting (emit e s) = awaiting s"
  "incomingRequestQueue (emit e s) = incomingRequestQueue s"
  "requestHandlers (emit e s) = requestHandlers s"
  "handled (emit e s) = handled s"
  "sleeping (emit e s) = sleeping s"
  "reconnectController (emit e s) = reconnectController s"
  "backOff (emit e s) = backOff s"
  by (simp_all add: emit_def)

lemma dropAuthenticated_frame [simp]:
  "status (dropAuthenticated p s) = (if authenticated s = Some p then CLOSED else status s)"
  "authenticated (dropAuthenticated p s) = (if authenticated s = Some p then None else authenticated s)"
  "unauthenticated (dropAuthenticated p s) = unauthenticated s"
  "procs (dropAuthenticated p s) = procs s"
  "nextId (dropAuthenticated p s) = nextId s"
  "credentials (dropAuthenticated p s) = credentials s"
  "isRemotelyExpired (dropAuthenticated p s) = isRemotelyExpired s"
  "connects (dropAuthenticated p s) = connects s"
  "options (dropAuthenticated p s) = options s"
  "lazyProxyAgent (dropAuthenticated p s) = lazyProxyAgent s"
  "suspended (dropAuthenticated p s) = suspended s"
  "awaiting (dropAuthenticated p s) = awaiting s"
  "incomingRequestQueue (dropAuthenticated p s) =
     (if authenticated s = Some p then [] else incomingRequestQueue s)"
  "requestHandlers (dropAuthenticated p s) = requestHandlers s"
  "handled (dropAuthenticated p s) = handled s"
  "sleeping (dropAuthenticated p s) = sleeping s"
  "reconnectController (dropAuthenticated p s) = reconnectController s"
  "backOff (dropAuthenticated p s) = backOff s"
  by (simp_all add: dropAuthenticated_def)

lemma dropUnauthenticated_frame [simp]:
  "status (dropUnauthenticated p s) = status s"
  "authenticated (dropUnauthenticated p s) = authenticated s"
  "unauthenticated (dropUnauthenticated p s) =
     (if unauthenticated s = Some p then None else unauthenticated s)"
  "procs (dropUnauthenticated p s) = procs s"
  "nextId (dropUnauthenticated p s) = nextId s"
  "credentials (dropUnauthenticated p s) = credentials s"
  "isRemotelyExpired (dropUnauthenticated p s) = isRemotelyExpired s"
  "connects (dropUnauthenticated p s) = connects s"
  "options (dropUnauthenticated p s) = options s"
  "lazyProxyAgent (dropUnauthenticated p s) = lazyProxyAgent s"
  "suspended (dropUnauthenticated p s) = suspended s"
  "awaiting (dropUnauthenticated p s) = awaiting s"
  by (simp_all add: dropUnauthenticated_def Let_def split: option.splits)

lemma abort_frame [simp]:
  "status (abort p s) = status s"
  "authenticated (abort p s) = authenticated s"
  "unauthenticated (abort p s) = unauthenticated s"
  "nextId (abort p s) = nextId s"
  "credentials (abort p s) = credentials s"
  "isRemotelyExpired (abort p s) = isRemotelyExpired s"
  "connects (abort p s) = connects s"
  "options (abort p s) = options s"
  "lazyProxyAgent (abort p s) = lazyProxyAgent s"
  "suspended (abort p s) = suspended s"
  "awaiting (abort p s) = awaiting s"
  by (simp_all add: abort_def split: option.splits prod.splits pstate.splits)

lemma abort_procs [simp]:
  "procs (abort p s) q = Some (k, Pending) \<longleftrightarrow> q \<noteq> p \<and> procs s q = Some (k, Pending)"
  "procs (abort p s) q = Some (k, Connected) \<longleftrightarrow> procs s q = Some (k, Connected)"
  "procs (abort p s) q = None \<longleftrightarrow> procs s q = None"
  by (auto simp add: abort_def split: option.splits prod.splits pstate.splits)

lemma abortReconnect_frame [simp]:
  "status (abortReconnect s) = status s"
  "authenticated (abortReconnect s) = authenticated s"
  "unauthenticated (abortReconnect s) = unauthenticated s"
  "procs (abortReconnect s) = procs s"
  "nextId (abortReconnect s) = nextId s"
  "credentials (abortReconnect s) = credentials s"
  "isRemotelyExpired (abortReconnect s) = isRemotelyExpired s"
  "connects (abortReconnect s) = connects s"
  "options (abortReconnect s) = options s"
  "lazyProxyAgent (abortReconnect s) = lazyProxyAgent s"
  "suspended (abortReconnect s) = suspended s"
  "awaiting (abortReconnect s) = awaiting s"
  by (simp_all add: abortReconnect_def split: option.splits)

lemma reconnect_helper_frame [simp]:
  "status (reconnect_helper s) = status s"
  "authenticated (reconnect_helper s) = authenticated s"
  "unauthenticated (reconnect_helper s) = unauthenticated s"
  "procs (reconnect_helper s) = procs s"
  "nextId (reconnect_helper s) = (if isRemotelyExpired s then nextId s else nextId s + 1)"
  "credentials (reconnect_helper s) = credentials s"
  "isRemotelyExpired (reconnect_helper s) = isRemotelyExpired s"
  "connects (reconnect_helper s) = connects s"
  "options (reconnect_helper s) = options s"
  "lazyProxyAgent (reconnect_helper s) = lazyProxyAgent s"
  "suspended (reconnect_helper s) = suspended s"
  "awaiting (reconnect_helper s) = awaiting s"
  by (simp_all add: reconnect_helper_def Let_def)

lemma getProxyAgent_frame [simp]:
  "status (snd (getProxyAgent env s)) = status s"
  "authenticated (snd (getProxyAgent env s)) = authenticated s"
  "unauthenticated (snd (getProxyAgent env s)) = unauthenticated s"
  "procs (snd (getProxyAgent env s)) = procs s"
  "nextId (snd (getProxyAgent env s)) = nextId s"
  "credentials (snd (getProxyAgent env s)) = credentials s"
  "isRemotelyExpired (snd (getProxyAgent env s)) = isRemotelyExpired s"
  "connects (snd (getProxyAgent env s)) = connects s"
  "options (snd (getProxyAgent env s)) = options s"
  "suspended (snd (getProxyAgent env s)) = suspended s"
  "awaiting (snd (getProxyAgent env s)) = awaiting s"
  by (simp_all add: getProxyAgent_def Let_def split: option.splits sum.splits)

lemma getProxyAgent_fst [simp]: "fst (getProxyAgent env s) = proxyResult env s"
  by (simp add: proxyResult_def)

lemma getProxyAgent_idem [simp]:
  "proxyResult env (snd (getProxyAgent env s)) = proxyResult env s"
proof (cases "proxyUrl (options s)")
  case None
  then show ?thesis
    by (cases "lazyProxyAgent s")
       (simp_all add: proxyResult_def getProxyAgent_def split: sum.splits)
next
  case (Some u)
  show ?thesis
  proof (cases "lazyProxyAgent s")
    case None
    with Some show ?thesis
      by (cases "createProxyAgent env u"; cases "u = []")
         (simp_all add: proxyResult_def getProxyAgent_def)
  next
    case (Some l)
    with \<open>proxyUrl (options s) = Some u\<close> show ?thesis
      by (cases l) (simp_all add: proxyResult_def getProxyAgent_def)
  qed
qed

lemma connectResource_frame [simp]:
  "fst (connectResource k name query topt s) = nextId s"
  "status (snd (connectResource k name query topt s)) = status s"
  "authenticated (snd (connectResource k name query topt s)) = authenticated s"
  "unauthenticated (snd (connectResource k name query topt s)) = unauthenticated s"
  "procs (snd (connectResource k name query topt s)) = (procs s)(nextId s \<mapsto> (k, Pending))"
  "nextId (snd (connectResource k name query topt s)) = nextId s + 1"
  "credentials (snd (connectResource k name query topt s)) = credentials s"
  "isRemotelyExpired (snd (connectResource k name query topt s)) = isRemotelyExpired s"
  "options (snd (connectResource k name query topt s)) = options s"
  "lazyProxyAgent (snd (connectResource k name query topt s)) = lazyProxyAgent s"
  "suspended (snd (connectResource k name query topt s)) = suspended s"
  "awaiting (snd (connectResource k name query topt s)) = awaiting s"
  by (simp_all add: connectResource_def Let_def)

lemma connectLibsignal_frame [simp]:
  "fst (connectLibsignalUnauthenticated s) = nextId s"
  "status (snd (connectLibsignalUnauthenticated s)) = status s"
  "authenticated (snd (connectLibsignalUnauthenticated s)) = authenticated s"
  "unauthenticated (snd (connectLibsignalUnauthenticated s)) = unauthenticated s"
  "procs (snd (connectLibsignalUnauthenticated s)) =
     (procs s)(nextId s \<mapsto> (UnauthenticatedLibsignalProc, Pending))"
  "nextId (snd (connectLibsignalUnauthenticated s)) = nextId s + 1"
  "credentials (snd (connectLibsignalUnauthenticated s)) = credentials s"
  "isRemotelyExpired (snd (connectLibsignalUnauthenticated s)) = isRemotelyExpired s"
  "options (snd (connectLibsignalUnauthenticated s)) = options s"
  "lazyProxyAgent (snd (connectLibsignalUnauthenticated s)) = lazyProxyAgent s"
  "suspended (snd (connectLibsignalUnauthenticated s)) = suspended s"
  "awaiting (snd (connectLibsignalUnauthenticated s)) = awaiting s"
  by (simp_all add: connectLibsignalUnauthenticated_def Let_def)

lemma settle_frame [simp]:
  "status (settle p k st s) = status s"
  "authenticated (settle p k st s) = authenticated s"
  "unauthenticated (settle p k st s) = unauthenticated s"
  "procs (settle p k st s) = (procs s)(p \<mapsto> (k, st))"
  "nextId (settle p k st s) = nextId s"
  "credentials (settle p k st s) = credentials s"
  "isRemotelyExpired (settle p k st s) = isRemotelyExpired s"
  "connects (settle p k st s) = connects s"
  "options (settle p k st s) = options s"
  "lazyProxyAgent (settle p k st s) = lazyProxyAgent s"
  "suspended (settle p k st s) = suspended s"
  "awaiting (settle p k st s) = awaiting s"
  by (simp_all add: settle_def)

lemma proxyResult_frame [simp]:
  "proxyResult env (setStatus st s) = proxyResult env s"
  "proxyResult env (emit e s) = proxyResult env s"
  "proxyResult env (dropAuthenticated p s) = proxyResult env s"
  "proxyResult env (dropUnauthenticated p s) = proxyResult env s"
  "proxyResult env (abort p s) = proxyResult env s"
  "proxyResult env (abortReconnect s) = proxyResult env s"
  "proxyResult env (reconnect_helper s) = proxyResult env s"
  "proxyResult env (settle p k ps s) = proxyResult env s"
  "proxyResult env (snd (connectResource k name query topt s)) = proxyResult env s"
  "proxyResult env (snd (connectLibsignalUnauthenticated s)) = proxyResult env s"
  by (rule proxyResult_cong; simp)+

lemma proxyResult_update [simp]:
  "proxyResult env (s\<lparr>credentials := c\<rparr>) = proxyResult env s"
  "proxyResult env (s\<lparr>authenticated := a\<rparr>) = proxyResult env s"
  "proxyResult env (s\<lparr>unauthenticated := u\<rparr>) = proxyResult env s"
  "proxyResult env (s\<lparr>backOff := b\<rparr>) = proxyResult env s"
  "proxyResult env (s\<lparr>procs := pr\<rparr>) = proxyResult env s"
  "proxyResult env (s\<lparr>nextId := n\<rparr>) = proxyResult env s"
  "proxyResult env (s\<lparr>suspended := su\<rparr>) = proxyResult env s"
  "proxyResult env (s\<lparr>awaiting := aw\<rparr>) = proxyResult env s"
  "proxyResult env (s\<lparr>connects := cs\<rparr>) = proxyResult env s"
  "proxyResult env (s\<lparr>isNavigatorOffline := b'\<rparr>) = proxyResult env s"
  "proxyResult env (s\<lparr>isRemotelyExpired := b'\<rparr>) = proxyResult env s"
  "proxyResult env (s\<lparr>hasStoriesDisabled := b'\<rparr>) = proxyResult env s"
  "proxyResult env (s\<lparr>sleeping := sl\<rparr>) = proxyResult env s"
  "proxyResult env (s\<lparr>reconnectController := rc\<rparr>) = proxyResult env s"
  "proxyResult env (s\<lparr>expirationTimers := ts\<rparr>) = proxyResult env s"
  "proxyResult env (s\<lparr>unauthenticatedExpirationTimer := t\<rparr>) = proxyResult env s"
  "proxyResult env (s\<lparr>incomingRequestQueue := q\<rparr>) = proxyResult env s"
  "proxyResult env (s\<lparr>requestHandlers := hs\<rparr>) = proxyResult env s"
  "proxyResult env (s\<lparr>handled := hd'\<rparr>) = proxyResult env s"
  "proxyResult env (s\<lparr>sent := sn\<rparr>) = proxyResult env s"
  "proxyResult env (s\<lparr>privIsOnline := on\<rparr>) = proxyResult env s"
  "proxyResult env (s\<lparr>events := es\<rparr>) = proxyResult env s"
  "proxyResult env (s\<lparr>status := st\<rparr>) = proxyResult env s"
  by (rule proxyResult_cong; simp)+

lemma fold_queueOrHandleRequest:
  "fold queueOrHandleRequest reqs s =
     (if requestHandlers s = []
      then s\<lparr>incomingRequestQueue := incomingRequestQueue s @ reqs\<rparr>
      else s\<lparr>handled := handled s @ concat (map (\<lambda>r. map (\<lambda>h. (h, r)) (requestHandlers s)) reqs)\<rparr>)"
  by (induction reqs arbitrary: s) (simp_all add: queueOrHandleRequest_def)

lemma await_call_simps [simp]:
  "await_call helper (Threw e, s) = (if helper then reconnect_helper s else s)"
  "await_call helper (Returned, s) = s"
  "await_call helper (AwaitsExisting p, s) = s"
  "await_call helper (AwaitsNew p, s) = s\<lparr>awaiting := awaiting s @ [p]\<rparr>"
  "await_call helper (Suspends x, s) = s\<lparr>suspended := suspended s @ [(x, helper)]\<rparr>"
  by (simp_all add: await_call_def)

lemma await_call_frame [simp]:
  "status (await_call helper r) = status (snd r)"
  "authenticated (await_call helper r) = authenticated (snd r)"
  "credentials (await_call helper r) = credentials (snd r)"
  "isRemotelyExpired (await_call helper r) = isRemotelyExpired (snd r)"
  by (cases r; cases "fst r"; simp add: await_call_def)+

subsection \<open>The shapes of the two calls that connect\<close>

lemma authenticate_cases:
  obtains (threw) "isRemotelyExpired s" and "authenticate env creds s = (Threw (HTTPError 0), s)"
  | (returned) "authenticate env creds s = (Returned, s)"
  | (existing) p where "authenticate env creds s = (AwaitsExisting p, s)"
  | (suspends) "\<not> isRemotelyExpired s" and "username creds \<noteq> [] \<or> password creds \<noteq> []"
      and "authenticate env creds s =
             (Suspends (AuthenticateAtProxy creds (proxyResult env s)),
              snd (getProxyAgent env (setStatus CONNECTING (s\<lparr>credentials := Some creds\<rparr>))))"
proof -
  have "isRemotelyExpired s \<and> authenticate env creds s = (Threw (HTTPError 0), s)
      \<or> authenticate env creds s = (Returned, s)
      \<or> (\<exists>p. authenticate env creds s = (AwaitsExisting p, s))
      \<or> (\<not> isRemotelyExpired s \<and> (username creds \<noteq> [] \<or> password creds \<noteq> [])
          \<and> authenticate env creds s =
             (Suspends (AuthenticateAtProxy creds (proxyResult env s)),
              snd (getProxyAgent env (setStatus CONNECTING (s\<lparr>credentials := Some creds\<rparr>)))))"
    by (simp add: authenticate_def Let_def case_prod_beta split: option.splits)
  then show thesis using threw returned existing suspends by blast
qed

lemma authenticate_resume_cases:
  obtains (threw) e where "agent = Inl e" and "authenticate_resume creds agent s = (Threw e, s)"
  | (new) a where "agent = Inr a"
      and "authenticate_resume creds agent s =
             (AwaitsNew (nextId s),
              (case authenticated s of
                 None \<Rightarrow> snd (connectResource AuthenticatedProc ''authenticated''
                          [(''login'', username creds), (''password'', password creds)] None s)
               | Some old \<Rightarrow> abort old (snd (connectResource AuthenticatedProc ''authenticated''
                          [(''login'', username creds), (''password'', password creds)] None s)))
              \<lparr>authenticated := Some (nextId s)\<rparr>)"
proof -
  have "(\<exists>e. agent = Inl e \<and> authenticate_resume creds agent s = (Threw e, s))
      \<or> (\<exists>a. agent = Inr a \<and> authenticate_resume creds agent s =
             (AwaitsNew (nextId s),
              (case authenticated s of
                 None \<Rightarrow> snd (connectResource AuthenticatedProc ''authenticated''
                          [(''login'', username creds), (''password'', password creds)] None s)
               | Some old \<Rightarrow> abort old (snd (connectResource AuthenticatedProc ''authenticated''
                          [(''login'', username creds), (''password'', password creds)] None s)))
              \<lparr>authenticated := Some (nextId s)\<rparr>))"
    by (cases agent)
       (simp_all add: authenticate_resume_def Let_def case_prod_beta split: option.splits)
  then show thesis using threw new by blast
qed

lemma getUnauthenticatedResource_cases:
  obtains (existing) p where "unauthenticated s = Some p"
      and "getUnauthenticatedResource env s = (AwaitsExisting p, s)"
  | (threw) "unauthenticated s = None" and "isRemotelyExpired s"
      and "getUnauthenticatedResource env s = (Threw (HTTPError 0), s)"
  | (suspends) "unauthenticated s = None" and "\<not> isRemotelyExpired s"
      and "getUnauthenticatedResource env s =
             (Suspends (GetUnauthenticatedAtProxy (proxyResult env s)), snd (getProxyAgent env s))"
proof -
  have "(\<exists>p. unauthenticated s = Some p
            \<and> getUnauthenticatedResource env s = (AwaitsExisting p, s))
      \<or> (unauthenticated s = None \<and> isRemotelyExpired s
            \<and> getUnauthenticatedResource env s = (Threw (HTTPError 0), s))
      \<or> (unauthenticated s = None \<and> \<not> isRemotelyExpired s
            \<and> getUnauthenticatedResource env s =
             (Suspends (GetUnauthenticatedAtProxy (proxyResult env s)), snd (getProxyAgent env s)))"
    by (cases "unauthenticated s")
       (simp_all add: getUnauthenticatedResource_def Let_def case_prod_beta)
  then show thesis using existing threw suspends by blast
qed

lemma getUnauthenticatedResource_resume_cases:
  obtains (threw) e where "agent = Inl e"
      and "getUnauthenticatedResource_resume env agent s = (Threw e, s)"
  | (libsignal) "getUnauthenticatedResource_resume env agent s =
        (AwaitsExisting (nextId s),
         (snd (connectLibsignalUnauthenticated s))\<lparr>unauthenticated := Some (nextId s)\<rparr>)"
  | (websocket) topt where "getUnauthenticatedResource_resume env agent s =
        (AwaitsNew (nextId s),
         (snd (connectResource UnauthenticatedProc ''unauthenticated'' [] (Some topt) s))
           \<lparr>unauthenticated := Some (nextId s)\<rparr>)"
proof -
  have "(\<exists>e. agent = Inl e \<and> getUnauthenticatedResource_resume env agent s = (Threw e, s))
      \<or> getUnauthenticatedResource_resume env agent s =
        (AwaitsExisting (nextId s),
         (snd (connectLibsignalUnauthenticated s))\<lparr>unauthenticated := Some (nextId s)\<rparr>)
      \<or> (\<exists>topt. getUnauthenticatedResource_resume env agent s =
        (AwaitsNew (nextId s),
         (snd (connectResource UnauthenticatedProc ''unauthenticated'' [] (Some topt) s))
           \<lparr>unauthenticated := Some (nextId s)\<rparr>))"
  proof (cases agent)
    case (Inl e)
    then show ?thesis by (simp add: getUnauthenticatedResource_resume_def)
  next
    case (Inr a)
    then show ?thesis
      by (cases "transportOption env (options s) a = Libsignal")
         (force simp add: getUnauthenticatedResource_resume_def Let_def case_prod_beta)+
  qed
  then show thesis using threw libsignal websocket by blast
qed

subsection \<open>The invariant\<close>

lemma holdsConnected_iff:
  "holdsConnected s \<longleftrightarrow>
     (\<exists>p. authenticated s = Some p \<and> procs s p = Some (AuthenticatedProc, Connected))"
  by (simp add: holdsConnected_def split: option.splits)

lemma currentAwaited_iff:
  "currentAwaited s \<longleftrightarrow> (\<exists>p. authenticated s = Some p \<and> p \<in> set (awaiting s))"
  by (simp add: currentAwaited_def split: option.splits)

lemma suspendedAuthenticate_simps [simp]:
  "suspended s = [] \<Longrightarrow> suspendedAuthenticate s = []"
  "suspendedAuthenticate (s\<lparr>suspended := []\<rparr>) = []"
  "suspendedAuthenticate (s\<lparr>suspended := (AuthenticateAtProxy c a, h) # rest\<rparr>) =
     (c, a) # suspendedAuthenticate (s\<lparr>suspended := rest\<rparr>)"
  "suspendedAuthenticate (s\<lparr>suspended := (GetUnauthenticatedAtProxy a, h) # rest\<rparr>) =
     suspendedAuthenticate (s\<lparr>suspended := rest\<rparr>)"
  "suspendedAuthenticate (s\<lparr>suspended := xs @ [(AuthenticateAtProxy c a, h)]\<rparr>) =
     suspendedAuthenticate (s\<lparr>suspended := xs\<rparr>) @ [(c, a)]"
  "suspendedAuthenticate (s\<lparr>suspended := xs @ [(GetUnauthenticatedAtProxy a, h)]\<rparr>) =
     suspendedAuthenticate (s\<lparr>suspended := xs\<rparr>)"
  by (simp_all add: suspendedAuthenticate_def List.map_filter_def)

lemma suspendedAuthenticate_cong:
  "suspended s' = suspended s \<Longrightarrow> suspendedAuthenticate s' = suspendedAuthenticate s"
  by (simp add: suspendedAuthenticate_def)

lemma invI:
  assumes "holdsConnected s \<Longrightarrow> status s = OPEN \<or> authSuspended s \<or> currentAwaited s"
    and "\<And>p. authenticated s = Some p \<Longrightarrow>
          procs s p = Some (AuthenticatedProc, Connected)
        \<or> p \<in> set (awaiting s)
          \<and> (procs s p = Some (AuthenticatedProc, Pending)
             \<or> (\<exists>e. procs s p = Some (AuthenticatedProc, Failed e)))"
    and "\<And>p. nextId s \<le> p \<Longrightarrow> procs s p = None"
    and "authenticated s \<noteq> None \<Longrightarrow> \<exists>a. proxyResult env s = Inr a"
    and "\<And>c a. (c, a) \<in> set (suspendedAuthenticate s) \<Longrightarrow> a = proxyResult env s"
  shows "inv env s"
  unfolding inv_def using assms by blast

lemma inv_conn:
    "inv env s \<Longrightarrow> holdsConnected s \<Longrightarrow> status s = OPEN \<or> authSuspended s \<or> currentAwaited s"
  and inv_current:
    "inv env s \<Longrightarrow> authenticated s = Some p \<Longrightarrow>
       procs s p = Some (AuthenticatedProc, Connected)
     \<or> p \<in> set (awaiting s)
       \<and> (procs s p = Some (AuthenticatedProc, Pending)
          \<or> (\<exists>e. procs s p = Some (AuthenticatedProc, Failed e)))"
  and inv_fresh: "inv env s \<Longrightarrow> nextId s \<le> p \<Longrightarrow> procs s p = None"
  and inv_proxy: "inv env s \<Longrightarrow> authenticated s \<noteq> None \<Longrightarrow> \<exists>a. proxyResult env s = Inr a"
  and inv_entry:
    "inv env s \<Longrightarrow> (c, a) \<in> set (suspendedAuthenticate s) \<Longrightarrow> a = proxyResult env s"
  unfolding inv_def by blast+

lemma inv_new: "inv env (new_manager opts)"
  by (rule invI)
     (simp_all add: new_manager_def holdsConnected_iff suspendedAuthenticate_def)

lemma inv_proc_lt: "inv env s \<Longrightarrow> procs s p = Some x \<Longrightarrow> p < nextId s"
  using inv_fresh[of env s p] by fastforce

lemma inv_current_kind:
  "inv env s \<Longrightarrow> authenticated s = Some p \<Longrightarrow> \<exists>st. procs s p = Some (AuthenticatedProc, st)"
  using inv_current[of env s p] by blast

lemma inv_current_lt: "inv env s \<Longrightarrow> authenticated s = Some p \<Longrightarrow> p < nextId s"
  using inv_current_kind[of env s p] inv_proc_lt[of env s p] by blast

text \<open>
  The authenticated process is the same and in the same state; the status is the same, or
  \<open>OPEN\<close>, or a call of \<^verbatim>\<open>authenticate\<close> is suspended.
\<close>

lemma inv_keep:
  assumes i: "inv env s"
    and st: "status s' = status s \<or> status s' = OPEN \<or> authSuspended s'"
    and au: "authenticated s' = authenticated s"
    and pr: "\<And>p. authenticated s = Some p \<Longrightarrow> procs s' p = procs s p"
    and fr: "\<And>q. nextId s' \<le> q \<Longrightarrow> procs s' q = None"
    and aw: "\<And>p. authenticated s = Some p \<Longrightarrow> p \<in> set (awaiting s) \<Longrightarrow> p \<in> set (awaiting s')"
    and su: "authSuspended s \<Longrightarrow> authSuspended s'"
    and en: "\<And>c a. (c, a) \<in> set (suspendedAuthenticate s') \<Longrightarrow>
               (c, a) \<in> set (suspendedAuthenticate s) \<or> a = proxyResult env s"
    and px: "proxyResult env s' = proxyResult env s"
  shows "inv env s'"
proof (rule invI)
  show "status s' = OPEN \<or> authSuspended s' \<or> currentAwaited s'" if h: "holdsConnected s'"
  proof -
    from h obtain p where p: "authenticated s' = Some p"
      "procs s' p = Some (AuthenticatedProc, Connected)"
      unfolding holdsConnected_iff by blast
    then have cur: "authenticated s = Some p" using au by simp
    with p pr[OF cur] have "holdsConnected s" unfolding holdsConnected_iff by auto
    from inv_conn[OF i this] consider "status s = OPEN" | "authSuspended s" | "currentAwaited s"
      by blast
    then show ?thesis
    proof cases
      case 1 with st show ?thesis by auto
    next
      case 2 with su show ?thesis by simp
    next
      case 3
      with cur have "p \<in> set (awaiting s)" unfolding currentAwaited_iff by simp
      from aw[OF cur this] p(1) show ?thesis unfolding currentAwaited_iff by simp
    qed
  qed
  show "procs s' p = Some (AuthenticatedProc, Connected)
        \<or> p \<in> set (awaiting s')
          \<and> (procs s' p = Some (AuthenticatedProc, Pending)
             \<or> (\<exists>e. procs s' p = Some (AuthenticatedProc, Failed e)))"
    if "authenticated s' = Some p" for p
  proof -
    from that au have cur: "authenticated s = Some p" by simp
    from inv_current[OF i cur] pr[OF cur] aw[OF cur] show ?thesis by auto
  qed
  show "procs s' q = None" if "nextId s' \<le> q" for q
    using that by (rule fr)
  show "\<exists>a. proxyResult env s' = Inr a" if "authenticated s' \<noteq> None"
    using that au px inv_proxy[OF i] by simp
  show "a = proxyResult env s'" if "(c, a) \<in> set (suspendedAuthenticate s')" for c a
    using en[OF that] inv_entry[OF i, of c a] px by auto
qed

text \<open>Nothing that the invariant reads has changed, but for numbers used up.\<close>

lemma inv_mono:
  assumes i: "inv env s"
    and "status s' = status s" and "authenticated s' = authenticated s"
    and "procs s' = procs s" and "nextId s \<le> nextId s'"
    and "proxyResult env s' = proxyResult env s"
    and "suspended s' = suspended s" and "awaiting s' = awaiting s"
  shows "inv env s'"
proof (rule inv_keep[OF i])
  have sa: "suspendedAuthenticate s' = suspendedAuthenticate s"
    using assms(7) by (rule suspendedAuthenticate_cong)
  show "authSuspended s \<Longrightarrow> authSuspended s'"
    by (simp add: authSuspended_def sa)
  show "\<And>c a. (c, a) \<in> set (suspendedAuthenticate s') \<Longrightarrow>
          (c, a) \<in> set (suspendedAuthenticate s) \<or> a = proxyResult env s"
    by (simp add: sa)
  show "\<And>q. nextId s' \<le> q \<Longrightarrow> procs s' q = None"
    using assms(4,5) inv_fresh[OF i] by simp
qed (use assms in simp_all)

text \<open>There is no authenticated process any more.\<close>

lemma inv_none:
  assumes i: "inv env s"
    and au: "authenticated s' = None"
    and fr: "\<And>q. nextId s' \<le> q \<Longrightarrow> procs s' q = None"
    and en: "\<And>c a. (c, a) \<in> set (suspendedAuthenticate s') \<Longrightarrow>
               (c, a) \<in> set (suspendedAuthenticate s)"
    and px: "proxyResult env s' = proxyResult env s"
  shows "inv env s'"
proof (rule invI)
  show "a = proxyResult env s'" if "(c, a) \<in> set (suspendedAuthenticate s')" for c a
    using en[OF that] inv_entry[OF i, of c a] px by simp
qed (use au fr in \<open>simp_all add: holdsConnected_iff\<close>)

text \<open>The authenticated process is \<open>p\<close>, in a state that the invariant allows.\<close>

lemma inv_some:
  assumes i: "inv env s"
    and au: "authenticated s' = Some p"
    and ok: "procs s' p = Some (AuthenticatedProc, Connected)
               \<and> (status s' = OPEN \<or> authSuspended s' \<or> p \<in> set (awaiting s'))
           \<or> p \<in> set (awaiting s')
               \<and> (procs s' p = Some (AuthenticatedProc, Pending)
                  \<or> (\<exists>e. procs s' p = Some (AuthenticatedProc, Failed e)))"
    and fr: "\<And>q. nextId s' \<le> q \<Longrightarrow> procs s' q = None"
    and en: "\<And>c a. (c, a) \<in> set (suspendedAuthenticate s') \<Longrightarrow>
               (c, a) \<in> set (suspendedAuthenticate s)"
    and px: "proxyResult env s' = proxyResult env s" "proxyResult env s = Inr a"
  shows "inv env s'"
proof (rule invI)
  show "status s' = OPEN \<or> authSuspended s' \<or> currentAwaited s'" if "holdsConnected s'"
    using that ok au unfolding holdsConnected_iff currentAwaited_iff by auto
  show "procs s' q = Some (AuthenticatedProc, Connected)
        \<or> q \<in> set (awaiting s')
          \<and> (procs s' q = Some (AuthenticatedProc, Pending)
             \<or> (\<exists>e. procs s' q = Some (AuthenticatedProc, Failed e)))"
    if "authenticated s' = Some q" for q
    using that ok au by auto
  show "procs s' q = None" if "nextId s' \<le> q" for q
    using that by (rule fr)
  show "\<exists>a. proxyResult env s' = Inr a"
    using px by simp
  show "a' = proxyResult env s'" if "(c, a') \<in> set (suspendedAuthenticate s')" for c a'
    using en[OF that] inv_entry[OF i, of c a'] px by simp
qed

subsection \<open>Every step keeps the invariant\<close>

lemma map_filter_auth_entry_append:
  "List.map_filter auth_entry (xs @ ys) =
     List.map_filter auth_entry xs @ List.map_filter auth_entry ys"
  by (simp add: List.map_filter_def)

lemma inv_reconnect_helper: "inv env s \<Longrightarrow> inv env (reconnect_helper s)"
  by (erule inv_mono) simp_all

lemma inv_suspend_authenticate:
  assumes i: "inv env s"
  shows "inv env ((snd (getProxyAgent env (setStatus CONNECTING (s\<lparr>credentials := Some creds\<rparr>))))
           \<lparr>suspended := suspended s @ [(AuthenticateAtProxy creds (proxyResult env s), helper)]\<rparr>)"
    (is "inv env ?s'")
proof (rule inv_keep[OF i])
  have sa: "suspendedAuthenticate ?s' = suspendedAuthenticate s @ [(creds, proxyResult env s)]"
    by (simp add: suspendedAuthenticate_def map_filter_auth_entry_append)
  show "status ?s' = status s \<or> status ?s' = OPEN \<or> authSuspended ?s'"
    by (simp add: authSuspended_def sa)
  show "authSuspended s \<Longrightarrow> authSuspended ?s'"
    by (simp add: authSuspended_def sa)
  show "(c, a) \<in> set (suspendedAuthenticate ?s') \<Longrightarrow>
          (c, a) \<in> set (suspendedAuthenticate s) \<or> a = proxyResult env s" for c a
    unfolding sa by auto
  show "procs ?s' q = None" if "nextId ?s' \<le> q" for q
    using that inv_fresh[OF i, of q] by simp
qed simp_all

lemma inv_await_authenticate:
  assumes i: "inv env s"
  shows "inv env (await_call helper (authenticate env creds s))"
proof (cases env creds s rule: authenticate_cases)
  case threw
  with i show ?thesis by (simp add: inv_reconnect_helper)
next
  case returned
  with i show ?thesis by simp
next
  case (existing p)
  with i show ?thesis by simp
next
  case suspends
  show ?thesis
    using inv_suspend_authenticate[OF i, of creds helper]
    by (simp add: suspends(3))
qed

lemma inv_resume_authenticate:
  assumes i: "inv env s" and su: "suspended s = (AuthenticateAtProxy creds agent, helper) # rest"
  shows "inv env (await_call helper (authenticate_resume creds agent (s\<lparr>suspended := rest\<rparr>)))"
proof -
  let ?s0 = "s\<lparr>suspended := rest\<rparr>"
  have sa: "suspendedAuthenticate s = (creds, agent) # suspendedAuthenticate ?s0"
    by (simp add: suspendedAuthenticate_def su)
  have ag: "agent = proxyResult env s"
    using inv_entry[OF i, of creds agent] sa by simp
  have sub: "(c, a) \<in> set (suspendedAuthenticate ?s0) \<Longrightarrow> (c, a) \<in> set (suspendedAuthenticate s)"
    for c a
    unfolding sa by simp
  show ?thesis
  proof (cases creds agent ?s0 rule: authenticate_resume_cases)
    case (threw e)
    have none: "authenticated s = None"
      using inv_proxy[OF i] ag threw(1) by (cases "authenticated s") auto
    have i0: "inv env ?s0"
    proof (rule inv_none[OF i])
      show "procs ?s0 q = None" if "nextId ?s0 \<le> q" for q
        using that inv_fresh[OF i, of q] by simp
    qed (use none sub in simp_all)
    then show ?thesis
      by (simp add: threw(2) inv_reconnect_helper)
  next
    case (new a)
    have px: "proxyResult env s = Inr a"
      using ag new(1) by simp
    let ?c = "snd (connectResource AuthenticatedProc ''authenticated''
                   [(''login'', username creds), (''password'', password creds)] None ?s0)"
    show ?thesis
    proof (cases "authenticated s")
      case None
      let ?s' = "?c\<lparr>authenticated := Some (nextId s), awaiting := awaiting s @ [nextId s]\<rparr>"
      have eq: "await_call helper (authenticate_resume creds agent ?s0) = ?s'"
        using None by (simp add: new(2))
      have sa': "suspendedAuthenticate ?s' = suspendedAuthenticate ?s0"
        by (rule suspendedAuthenticate_cong) simp
      have "inv env ?s'"
      proof (rule inv_some[OF i _ _ _ _ _ px, where p = "nextId s"])
        show "(c, a') \<in> set (suspendedAuthenticate ?s') \<Longrightarrow>
               (c, a') \<in> set (suspendedAuthenticate s)" for c a'
          unfolding sa' by (rule sub)
        show "procs ?s' q = None" if "nextId ?s' \<le> q" for q
          using that inv_fresh[OF i, of q] by simp
      qed simp_all
      then show ?thesis unfolding eq .
    next
      case (Some old)
      let ?s' = "(abort old ?c)\<lparr>authenticated := Some (nextId s),
                   awaiting := awaiting s @ [nextId s]\<rparr>"
      have eq: "await_call helper (authenticate_resume creds agent ?s0) = ?s'"
        using Some by (simp add: new(2))
      have sa': "suspendedAuthenticate ?s' = suspendedAuthenticate ?s0"
        by (rule suspendedAuthenticate_cong) simp
      have lt: "old < nextId s"
        using inv_current_lt[OF i Some] .
      have "inv env ?s'"
      proof (rule inv_some[OF i _ _ _ _ _ px, where p = "nextId s"])
        show "(c, a') \<in> set (suspendedAuthenticate ?s') \<Longrightarrow>
               (c, a') \<in> set (suspendedAuthenticate s)" for c a'
          unfolding sa' by (rule sub)
        show "procs ?s' q = None" if "nextId ?s' \<le> q" for q
          using that inv_fresh[OF i, of q] by simp
        show "procs ?s' (nextId s) = Some (AuthenticatedProc, Connected)
               \<and> (status ?s' = OPEN \<or> authSuspended ?s' \<or> nextId s \<in> set (awaiting ?s'))
           \<or> nextId s \<in> set (awaiting ?s')
               \<and> (procs ?s' (nextId s) = Some (AuthenticatedProc, Pending)
                  \<or> (\<exists>e. procs ?s' (nextId s) = Some (AuthenticatedProc, Failed e)))"
          using lt by simp
      qed simp_all
      then show ?thesis unfolding eq .
    qed
  qed
qed

lemma inv_suspended_other:
  assumes i: "inv env s"
    and sa: "List.map_filter auth_entry xs = suspendedAuthenticate s"
  shows "inv env (s\<lparr>suspended := xs\<rparr>)"
proof (rule inv_keep[OF i])
  have sa': "suspendedAuthenticate (s\<lparr>suspended := xs\<rparr>) = suspendedAuthenticate s"
    using sa by (simp add: suspendedAuthenticate_def)
  show "authSuspended s \<Longrightarrow> authSuspended (s\<lparr>suspended := xs\<rparr>)"
    by (simp add: authSuspended_def sa')
  show "(c, a) \<in> set (suspendedAuthenticate (s\<lparr>suspended := xs\<rparr>)) \<Longrightarrow>
          (c, a) \<in> set (suspendedAuthenticate s) \<or> a = proxyResult env s" for c a
    by (simp add: sa')
  show "\<And>q. nextId (s\<lparr>suspended := xs\<rparr>) \<le> q \<Longrightarrow> procs (s\<lparr>suspended := xs\<rparr>) q = None"
    using inv_fresh[OF i] by simp
qed simp_all

text \<open>A process that is not an authenticated one has been created.\<close>

lemma inv_new_other:
  assumes i: "inv env s"
    and "status s' = status s" and "authenticated s' = authenticated s"
    and "proxyResult env s' = proxyResult env s"
    and "suspended s' = suspended s"
    and "set (awaiting s) \<subseteq> set (awaiting s')"
    and "procs s' = (procs s)(nextId s \<mapsto> x)" and "nextId s' = nextId s + 1"
  shows "inv env s'"
proof (rule inv_keep[OF i])
  have sa: "suspendedAuthenticate s' = suspendedAuthenticate s"
    using assms(5) by (rule suspendedAuthenticate_cong)
  show "authSuspended s \<Longrightarrow> authSuspended s'"
    by (simp add: authSuspended_def sa)
  show "\<And>c a. (c, a) \<in> set (suspendedAuthenticate s') \<Longrightarrow>
          (c, a) \<in> set (suspendedAuthenticate s) \<or> a = proxyResult env s"
    by (simp add: sa)
  show "\<And>q. nextId s' \<le> q \<Longrightarrow> procs s' q = None"
    using assms(7,8) inv_fresh[OF i] by simp
  show "procs s' p = procs s p" if "authenticated s = Some p" for p
    using inv_current_lt[OF i that] assms(7) by simp
  show "p \<in> set (awaiting s')" if "p \<in> set (awaiting s)" for p
    using that assms(6) by blast
qed (use assms in simp_all)

lemma inv_resume_unauthenticated:
  assumes i: "inv env s" and su: "suspended s = (GetUnauthenticatedAtProxy agent, helper) # rest"
  shows "inv env (await_call helper
           (getUnauthenticatedResource_resume env agent (s\<lparr>suspended := rest\<rparr>)))"
proof -
  let ?s0 = "s\<lparr>suspended := rest\<rparr>"
  have i0: "inv env ?s0"
    by (rule inv_suspended_other[OF i]) (simp add: suspendedAuthenticate_def su)
  show ?thesis
  proof (cases env agent ?s0 rule: getUnauthenticatedResource_resume_cases)
    case (threw e)
    with i0 show ?thesis by (simp add: inv_reconnect_helper)
  next
    case libsignal
    have "inv env ((snd (connectLibsignalUnauthenticated ?s0))\<lparr>unauthenticated := Some (nextId ?s0)\<rparr>)"
      by (rule inv_new_other[OF i0, where x = "(UnauthenticatedLibsignalProc, Pending)"])
         simp_all
    then show ?thesis by (simp add: libsignal)
  next
    case (websocket topt)
    have "inv env ((snd (connectResource UnauthenticatedProc ''unauthenticated'' [] (Some topt) ?s0))
            \<lparr>unauthenticated := Some (nextId ?s0),
              awaiting := awaiting ?s0 @ [nextId ?s0]\<rparr>)"
      by (rule inv_new_other[OF i0, where x = "(UnauthenticatedProc, Pending)"])
         auto
    then show ?thesis by (simp add: websocket)
  qed
qed

lemma inv_resume: "inv env s \<Longrightarrow> inv env (resume env s)"
proof (cases "suspended s")
  case Nil
  assume "inv env s"
  with Nil show ?thesis by (simp add: resume_def)
next
  case (Cons e rest)
  assume i: "inv env s"
  obtain x helper where e: "e = (x, helper)" by (cases e)
  show ?thesis
  proof (cases x)
    case (AuthenticateAtProxy creds agent)
    with Cons e inv_resume_authenticate[OF i, of creds agent helper rest]
    show ?thesis by (simp add: resume_def)
  next
    case (GetUnauthenticatedAtProxy agent)
    with Cons e inv_resume_unauthenticated[OF i, of agent helper rest]
    show ?thesis by (simp add: resume_def)
  qed
qed

lemma inv_await_getUnauthenticatedResource:
  assumes i: "inv env s"
  shows "inv env (await_call helper (getUnauthenticatedResource env s))"
proof (cases env s rule: getUnauthenticatedResource_cases)
  case (existing p)
  with i show ?thesis by simp
next
  case threw
  with i show ?thesis by (simp add: inv_reconnect_helper)
next
  case suspends
  have i1: "inv env (snd (getProxyAgent env s))"
    by (rule inv_mono[OF i]) simp_all
  have "inv env ((snd (getProxyAgent env s))
          \<lparr>suspended := suspended (snd (getProxyAgent env s)) @
             [(GetUnauthenticatedAtProxy (proxyResult env s), helper)]\<rparr>)"
    by (rule inv_suspended_other[OF i1])
       (simp add: suspendedAuthenticate_def map_filter_auth_entry_append)
  then show ?thesis by (simp add: suspends(3))
qed

lemma inv_dropUnauthenticated: "inv env s \<Longrightarrow> inv env (dropUnauthenticated p s)"
  by (erule inv_mono) simp_all

lemma inv_await_getAuthenticatedResource:
  "inv env s \<Longrightarrow> inv env (await_call helper (getAuthenticatedResource env s))"
  by (simp add: getAuthenticatedResource_def inv_await_authenticate inv_reconnect_helper
      split: option.splits)

lemma inv_await_fetch_resource:
  "inv env s \<Longrightarrow> inv env (await_call helper (fetch_resource env init s))"
  by (simp add: fetch_resource_def inv_await_getAuthenticatedResource
      inv_await_getUnauthenticatedResource)

lemma inv_queueOrHandleRequest: "inv env s \<Longrightarrow> inv env (queueOrHandleRequest req s)"
  by (erule inv_mono) (simp_all add: queueOrHandleRequest_def)

lemma inv_registerRequestHandler: "inv env s \<Longrightarrow> inv env (registerRequestHandler h s)"
  by (erule inv_mono) (simp_all add: registerRequestHandler_def Let_def fold_queueOrHandleRequest)

lemma inv_unregisterRequestHandler: "inv env s \<Longrightarrow> inv env (unregisterRequestHandler h s)"
  by (erule inv_mono) (simp_all add: unregisterRequestHandler_def)

lemma inv_fetch_send: "inv env s \<Longrightarrow> inv env (snd (fetch_send env r u init s))"
  by (erule inv_mono)
     (simp_all add: fetch_send_def Let_def split: option.splits sum.splits)

lemma inv_startTimer:
  "inv env s \<Longrightarrow> inv env (snd (startUnauthenticatedExpirationTimer r s))"
  by (erule inv_mono)
     (simp_all add: startUnauthenticatedExpirationTimer_def Let_def split: option.splits)

lemma inv_fetch_arms_timer: "inv env s \<Longrightarrow> inv env (fetch_arms_timer r s)"
  by (simp add: fetch_arms_timer_def inv_startTimer
      split: option.splits prod.splits pstate.splits)

lemma inv_fetch_sends: "inv env s \<Longrightarrow> inv env (fetch_sends env r u init s)"
  by (simp add: fetch_sends_def inv_fetch_send
      split: option.splits prod.splits pstate.splits)

lemma inv_onNavigatorOffline: "inv env s \<Longrightarrow> inv env (onNavigatorOffline s)"
  by (erule inv_mono) (simp_all add: onNavigatorOffline_def)

lemma inv_onRemoteExpiration: "inv env s \<Longrightarrow> inv env (onRemoteExpiration s)"
  by (erule inv_mono) (simp_all add: onRemoteExpiration_def)

lemma inv_drop_current:
  assumes i: "inv env s"
  shows "inv env (case authenticated s of None \<Rightarrow> s | Some a \<Rightarrow> dropAuthenticated a (abort a s))"
proof (cases "authenticated s")
  case None
  with i show ?thesis by simp
next
  case (Some a)
  have "inv env (dropAuthenticated a (abort a s))"
  proof (rule inv_none[OF i])
    show "procs (dropAuthenticated a (abort a s)) q = None"
      if "nextId (dropAuthenticated a (abort a s)) \<le> q" for q
      using that inv_fresh[OF i, of q] by simp
    show "(c, x) \<in> set (suspendedAuthenticate (dropAuthenticated a (abort a s))) \<Longrightarrow>
            (c, x) \<in> set (suspendedAuthenticate s)" for c x
      by (simp add: suspendedAuthenticate_def)
  qed (use Some in simp_all)
  with Some show ?thesis by simp
qed

lemma drop_current_none:
  "authenticated (case authenticated s of None \<Rightarrow> s | Some a \<Rightarrow> dropAuthenticated a (abort a s)) = None"
  by (simp split: option.splits)

lemma inv_abort_none:
  assumes i: "inv env s" and none: "authenticated s = None"
  shows "inv env (abort u s)"
proof (rule inv_none[OF i])
  show "procs (abort u s) q = None" if "nextId (abort u s) \<le> q" for q
    using that inv_fresh[OF i, of q] by simp
  show "(c, x) \<in> set (suspendedAuthenticate (abort u s)) \<Longrightarrow>
          (c, x) \<in> set (suspendedAuthenticate s)" for c x
    by (simp add: suspendedAuthenticate_def)
qed (use none in simp_all)

lemma inv_logout:
  assumes i: "inv env s"
  shows "inv env (logout s)"
  unfolding logout_def Let_def
  by (rule inv_mono[OF inv_drop_current[OF i]]) simp_all

lemma inv_await_reconnect:
  assumes i: "inv env s"
  shows "inv env (await_call helper (reconnect env s))"
proof -
  define s1 where "s1 = (case authenticated s of None \<Rightarrow> s | Some a \<Rightarrow> dropAuthenticated a (abort a s))"
  define s2 where "s2 = (case unauthenticated s of None \<Rightarrow> s1 | Some u \<Rightarrow> dropUnauthenticated u (abort u s1))"
  have i1: "inv env s1"
    unfolding s1_def by (rule inv_drop_current[OF i])
  have none: "authenticated s1 = None"
    unfolding s1_def by (rule drop_current_none)
  have i2: "inv env s2"
    using i1 none by (simp add: s2_def inv_dropUnauthenticated inv_abort_none split: option.splits)
  have i3: "inv env (abortReconnect (s2\<lparr>backOff := reset None (backOff s2)\<rparr>))"
    by (rule inv_mono[OF i2]) simp_all
  show ?thesis
    using i2 i3
    by (simp add: reconnect_def Let_def s1_def[symmetric] s2_def[symmetric]
        inv_await_authenticate split: option.splits)
qed

lemma inv_await_onHasStoriesDisabledChange:
  assumes "inv env s"
  shows "inv env (await_call helper (onHasStoriesDisabledChange env b s))"
proof -
  have "inv env (s\<lparr>hasStoriesDisabled := b\<rparr>)"
    by (rule inv_mono[OF assms]) simp_all
  with assms show ?thesis
    by (simp add: onHasStoriesDisabledChange_def inv_await_reconnect)
qed

lemma inv_await_onNavigatorOnline:
  assumes "inv env s"
  shows "inv env (await_call helper (onNavigatorOnline env s))"
proof -
  define s1 where "s1 = s\<lparr>isNavigatorOffline := False,
                 backOff := reset (Some FIBONACCI_TIMEOUTS) (backOff s)\<rparr>"
  have i1: "inv env s1"
    by (rule inv_mono[OF assms]) (simp_all add: s1_def)
  have "inv env (abortReconnect s1)"
    by (rule inv_mono[OF i1]) simp_all
  with i1 show ?thesis
    by (simp add: onNavigatorOnline_def Let_def s1_def[symmetric] inv_await_authenticate
        split: option.splits)
qed

lemma inv_reconnect_helper_wake:
  assumes "inv env s"
  shows "inv env (reconnect_helper_wake env c s)"
proof -
  define s1 where "s1 = s\<lparr>sleeping := removeAll c (sleeping s),
                 reconnectController :=
                   (if reconnectController s = Some c then None else reconnectController s)\<rparr>"
  have i1: "inv env s1"
    by (rule inv_mono[OF assms]) (simp_all add: s1_def)
  then show ?thesis
    by (simp add: reconnect_helper_wake_def Let_def s1_def[symmetric] inv_await_authenticate
        split: option.splits)
qed

lemma inv_expiration_timer_fired:
  assumes "inv env s"
  shows "inv env (expiration_timer_fired env t p s)"
proof -
  have "inv env (s\<lparr>expirationTimers := filter (\<lambda>(t', _). t' \<noteq> t) (expirationTimers s)\<rparr>)"
    by (rule inv_mono[OF assms]) simp_all
  then show ?thesis
    by (simp add: expiration_timer_fired_def Let_def inv_await_getUnauthenticatedResource
        inv_dropUnauthenticated)
qed

lemma inv_incoming_request: "inv env s \<Longrightarrow> inv env (incoming_request p req s)"
  by (simp add: incoming_request_def inv_queueOrHandleRequest
      split: option.splits prod.splits pkind.splits pstate.splits)

lemma authenticate_failed_frame:
  assumes "authenticated s = Some p"
  shows "status (authenticate_failed p err s) = CLOSED"
    and "authenticated (authenticate_failed p err s) = None"
    and "procs (authenticate_failed p err s) = procs s"
    and "nextId s \<le> nextId (authenticate_failed p err s)"
    and "suspended (authenticate_failed p err s) = suspended s"
    and "proxyResult env (authenticate_failed p err s) = proxyResult env s"
  using assms by (cases err; simp add: authenticate_failed_def Let_def)+

lemma authenticate_failed_superseded:
  "authenticated s \<noteq> Some p \<Longrightarrow> authenticate_failed p err s = s"
  by (simp add: authenticate_failed_def)

lemma close_listener_frame:
  assumes "authenticated s = Some p"
  shows "status (authenticated_close_listener p code s) = CLOSED"
    and "authenticated (authenticated_close_listener p code s) = None"
    and "procs (authenticated_close_listener p code s) = procs s"
    and "nextId s \<le> nextId (authenticated_close_listener p code s)"
    and "suspended (authenticated_close_listener p code s) = suspended s"
    and "proxyResult env (authenticated_close_listener p code s) = proxyResult env s"
  using assms by (simp_all add: authenticated_close_listener_def Let_def)

text \<open>A process that is not the authenticated one changes its state.\<close>

lemma inv_settle_other:
  assumes i: "inv env s" and nc: "authenticated s \<noteq> Some p" and ex: "procs s p = Some x"
  shows "inv env (settle p k st s)"
proof (rule inv_keep[OF i])
  have sa: "suspendedAuthenticate (settle p k st s) = suspendedAuthenticate s"
    by (rule suspendedAuthenticate_cong) simp
  show "authSuspended s \<Longrightarrow> authSuspended (settle p k st s)"
    by (simp add: authSuspended_def sa)
  show "(c, a) \<in> set (suspendedAuthenticate (settle p k st s)) \<Longrightarrow>
          (c, a) \<in> set (suspendedAuthenticate s) \<or> a = proxyResult env s" for c a
    by (simp add: sa)
  show "procs (settle p k st s) q = None" if "nextId (settle p k st s) \<le> q" for q
    using that inv_fresh[OF i, of q] inv_proc_lt[OF i ex] by simp
  show "procs (settle p k st s) q = procs s q" if "authenticated s = Some q" for q
    using that nc by auto
qed simp_all

lemma inv_process_connected:
  assumes i: "inv env s"
  shows "inv env (process_connected p s)"
proof (cases "procs s p")
  case None
  with i show ?thesis by (simp add: process_connected_def)
next
  case (Some x)
  obtain k st where x: "x = (k, st)" by (cases x)
  show ?thesis
  proof (cases "st = Pending")
    case False
    with i Some x show ?thesis
      by (cases st) (simp_all add: process_connected_def)
  next
    case True
    have eq: "process_connected p s = settle p k Connected s"
      using Some x True by (simp add: process_connected_def)
    show ?thesis
    proof (cases "authenticated s = Some p")
      case False
      then show ?thesis
        unfolding eq using inv_settle_other[OF i _ Some] by simp
    next
      case cur: True
      from inv_current[OF i cur] Some x True
      have k: "k = AuthenticatedProc" and aw: "p \<in> set (awaiting s)" by auto
      from inv_proxy[OF i] cur obtain a where px: "proxyResult env s = Inr a" by auto
      show ?thesis
        unfolding eq
      proof (rule inv_some[OF i _ _ _ _ _ px, where p = p])
        show "procs (settle p k Connected s) q = None" if "nextId (settle p k Connected s) \<le> q" for q
          using that inv_fresh[OF i, of q] inv_proc_lt[OF i Some] by simp
        show "(c, a') \<in> set (suspendedAuthenticate (settle p k Connected s)) \<Longrightarrow>
               (c, a') \<in> set (suspendedAuthenticate s)" for c a'
          by (simp add: suspendedAuthenticate_def)
      qed (use cur k aw in simp_all)
    qed
  qed
qed

lemma inv_process_failed:
  assumes i: "inv env s"
  shows "inv env (process_failed p err s)"
proof (cases "procs s p")
  case None
  with i show ?thesis by (simp add: process_failed_def)
next
  case (Some x)
  obtain k st where x: "x = (k, st)" by (cases x)
  show ?thesis
  proof (cases "st = Pending")
    case False
    with i Some x show ?thesis
      by (cases st) (simp_all add: process_failed_def)
  next
    case True
    have eq: "process_failed p err s = settle p k (Failed err) s"
      using Some x True by (simp add: process_failed_def)
    show ?thesis
    proof (cases "authenticated s = Some p")
      case False
      then show ?thesis
        unfolding eq using inv_settle_other[OF i _ Some] by simp
    next
      case cur: True
      from inv_current[OF i cur] Some x True
      have k: "k = AuthenticatedProc" and aw: "p \<in> set (awaiting s)" by auto
      from inv_proxy[OF i] cur obtain a where px: "proxyResult env s = Inr a" by auto
      show ?thesis
        unfolding eq
      proof (rule inv_some[OF i _ _ _ _ _ px, where p = p])
        show "procs (settle p k (Failed err) s) q = None"
          if "nextId (settle p k (Failed err) s) \<le> q" for q
          using that inv_fresh[OF i, of q] inv_proc_lt[OF i Some] by simp
        show "(c, a') \<in> set (suspendedAuthenticate (settle p k (Failed err) s)) \<Longrightarrow>
               (c, a') \<in> set (suspendedAuthenticate s)" for c a'
          by (simp add: suspendedAuthenticate_def)
      qed (use cur k aw in simp_all)
    qed
  qed
qed

text \<open>A call that awaited a process other than the authenticated one has continued.\<close>

lemma inv_continued_other:
  assumes i: "inv env s" and nc: "authenticated s \<noteq> Some p"
    and "status s' = status s \<or> status s' = OPEN"
    and "authenticated s' = authenticated s" and "procs s' = procs s"
    and "nextId s' = nextId s" and "suspended s' = suspended s"
    and "awaiting s' = removeAll p (awaiting s)"
    and "proxyResult env s' = proxyResult env s"
  shows "inv env s'"
proof (rule inv_keep[OF i])
  have sa: "suspendedAuthenticate s' = suspendedAuthenticate s"
    using assms(7) by (rule suspendedAuthenticate_cong)
  show "authSuspended s \<Longrightarrow> authSuspended s'"
    by (simp add: authSuspended_def sa)
  show "\<And>c a. (c, a) \<in> set (suspendedAuthenticate s') \<Longrightarrow>
          (c, a) \<in> set (suspendedAuthenticate s) \<or> a = proxyResult env s"
    by (simp add: sa)
  show "\<And>q. nextId s' \<le> q \<Longrightarrow> procs s' q = None"
    using assms(5,6) inv_fresh[OF i] by simp
  show "q \<in> set (awaiting s')" if "authenticated s = Some q" "q \<in> set (awaiting s)" for q
    using that nc assms(8) by auto
  show "status s' = status s \<or> status s' = OPEN \<or> authSuspended s'"
    using assms(3) by blast
qed (use assms in simp_all)

lemma inv_continues:
  assumes i: "inv env s"
  shows "inv env (continues p s)"
proof (cases "p \<in> set (awaiting s)")
  case False
  with i show ?thesis by (simp add: continues_def)
next
  case aw: True
  let ?s1 = "s\<lparr>awaiting := removeAll p (awaiting s)\<rparr>"
  have i1: "inv env ?s1" if "authenticated s \<noteq> Some p"
    by (rule inv_continued_other[OF i that]) simp_all
  show ?thesis
  proof (cases "authenticated s = Some p")
    case cur: True
    from inv_proxy[OF i] cur obtain a where px: "proxyResult env s = Inr a" by auto
    have cur1: "authenticated ?s1 = Some p" using cur by simp
    from inv_current[OF i cur] consider
        (connected) "procs s p = Some (AuthenticatedProc, Connected)"
      | (pending) "procs s p = Some (AuthenticatedProc, Pending)"
      | (failed) e where "procs s p = Some (AuthenticatedProc, Failed e)"
      by blast
    then show ?thesis
    proof cases
      case connected
      then have eq: "continues p s = authenticate_connected p ?s1"
        using aw by (simp add: continues_def)
      show ?thesis
        unfolding eq
      proof (rule inv_some[OF i _ _ _ _ _ px, where p = p])
        show "procs (authenticate_connected p ?s1) q = None"
          if "nextId (authenticate_connected p ?s1) \<le> q" for q
          using that inv_fresh[OF i, of q] by (simp add: authenticate_connected_def Let_def)
        show "(c, a') \<in> set (suspendedAuthenticate (authenticate_connected p ?s1)) \<Longrightarrow>
               (c, a') \<in> set (suspendedAuthenticate s)" for c a'
          by (simp add: suspendedAuthenticate_def authenticate_connected_def Let_def)
      qed (use cur connected in \<open>simp_all add: authenticate_connected_def Let_def\<close>)
    next
      case pending
      then have "continues p s = s"
        using aw by (simp add: continues_def)
      with i show ?thesis by simp
    next
      case (failed e)
      then have eq: "continues p s = authenticate_failed p e ?s1"
        using aw by (simp add: continues_def)
      show ?thesis
        unfolding eq
      proof (rule inv_none[OF i])
        show "procs (authenticate_failed p e ?s1) q = None"
          if "nextId (authenticate_failed p e ?s1) \<le> q" for q
          using that inv_fresh[OF i, of q] authenticate_failed_frame(3,4)[OF cur1, of e]
          by simp
        show "(c, a') \<in> set (suspendedAuthenticate (authenticate_failed p e ?s1)) \<Longrightarrow>
               (c, a') \<in> set (suspendedAuthenticate s)" for c a'
          by (simp add: suspendedAuthenticate_def authenticate_failed_frame(5)[OF cur1])
      qed (simp_all add: authenticate_failed_frame[OF cur1])
    qed
  next
    case nc: False
    then have nc1: "authenticated ?s1 \<noteq> Some p" by simp
    have conn: "inv env (authenticate_connected p ?s1)"
      by (rule inv_continued_other[OF i nc])
         (simp_all add: authenticate_connected_def Let_def)
    have unauth: "inv env (unauthenticated_failed p ?s1)"
      unfolding unauthenticated_failed_def by (rule inv_dropUnauthenticated[OF i1[OF nc]])
    show ?thesis
    proof (cases "procs s p")
      case None
      with i show ?thesis by (simp add: continues_def)
    next
      case (Some x)
      obtain k st where x: "x = (k, st)" by (cases x)
      show ?thesis
        using i i1[OF nc] conn unauth aw Some x
        by (cases k; cases st)
           (simp_all add: continues_def authenticate_failed_superseded[OF nc1])
    qed
  qed
qed

lemma inv_resource_closed:
  assumes i: "inv env s"
  shows "inv env (resource_closed p code s)"
proof (cases "p \<in> set (awaiting s)")
  case True
  with i show ?thesis by (simp add: resource_closed_def)
next
  case na: False
  show ?thesis
  proof (cases "procs s p")
    case None
    with i show ?thesis by (simp add: resource_closed_def)
  next
    case (Some x)
    obtain k st where x: "x = (k, st)" by (cases x)
    show ?thesis
    proof (cases "st = Connected")
      case False
      with i Some x show ?thesis
        by (cases k; cases st) (simp_all add: resource_closed_def)
    next
      case True
      show ?thesis
      proof (cases "authenticated s = Some p")
        case cur: True
        from inv_current[OF i cur] Some x have k: "k = AuthenticatedProc" by auto
        have eq: "resource_closed p code s =
                    authenticated_close_listener p code (settle p AuthenticatedProc Closed s)"
          using Some x True k na by (simp add: resource_closed_def)
        have cur': "authenticated (settle p AuthenticatedProc Closed s) = Some p"
          using cur by simp
        show ?thesis
          unfolding eq
        proof (rule inv_none[OF i])
          show "procs (authenticated_close_listener p code (settle p AuthenticatedProc Closed s)) q = None"
            if "nextId (authenticated_close_listener p code (settle p AuthenticatedProc Closed s)) \<le> q"
            for q
            using that inv_fresh[OF i, of q] close_listener_frame(3,4)[OF cur', of code]
              inv_proc_lt[OF i Some]
            by simp
          show "(c, a') \<in> set (suspendedAuthenticate
                   (authenticated_close_listener p code (settle p AuthenticatedProc Closed s))) \<Longrightarrow>
                 (c, a') \<in> set (suspendedAuthenticate s)" for c a'
            by (simp add: suspendedAuthenticate_def close_listener_frame(5)[OF cur'])
        qed (simp_all add: close_listener_frame[OF cur'])
      next
        case nc: False
        have st: "inv env (settle p k Closed s)"
          using inv_settle_other[OF i nc Some] .
        have "inv env (unauthenticated_close_listener p (settle p k Closed s))"
          unfolding unauthenticated_close_listener_def
          using st by (simp add: inv_dropUnauthenticated)
        with st nc Some x True na show ?thesis
          by (cases k) (simp_all add: resource_closed_def authenticated_close_listener_def)
      qed
    qed
  qed
qed

lemma inv_step: "inv env s \<Longrightarrow> inv env (step env ev s)"
  by (cases ev)
     (simp_all add: step_def inv_await_authenticate inv_resume inv_continues
        inv_process_connected inv_process_failed inv_resource_closed inv_incoming_request
        inv_reconnect_helper_wake inv_expiration_timer_fired
        inv_await_getAuthenticatedResource inv_await_getUnauthenticatedResource
        inv_await_fetch_resource inv_fetch_arms_timer inv_fetch_sends
        inv_registerRequestHandler inv_unregisterRequestHandler
        inv_await_onHasStoriesDisabledChange inv_await_reconnect inv_await_onNavigatorOnline
        inv_onNavigatorOffline inv_onRemoteExpiration inv_logout split: option.splits)

lemma inv_run: "inv env s \<Longrightarrow> inv env (run env evs s)"
  unfolding run_def by (induction evs arbitrary: s) (simp_all add: inv_step)

subsection \<open>A status \<open>OPEN\<close> comes with an authenticated process\<close>

lemma openHasProcess_await_call [simp]:
  "openHasProcess (await_call helper r) = openHasProcess (snd r)"
  by (simp add: openHasProcess_def)

lemma openHasProcess_frame:
  "openHasProcess s \<Longrightarrow> status s' = status s \<Longrightarrow> authenticated s' = authenticated s \<Longrightarrow>
   openHasProcess s'"
  by (simp add: openHasProcess_def)

lemma openHasProcess_new: "openHasProcess (new_manager opts)"
  by (simp add: openHasProcess_def new_manager_def)

lemma openHasProcess_authenticate:
  "openHasProcess s \<Longrightarrow> openHasProcess (snd (authenticate env creds s))"
  by (cases env creds s rule: authenticate_cases) (simp_all add: openHasProcess_def)

lemma openHasProcess_authenticate_resume:
  "openHasProcess s \<Longrightarrow> openHasProcess (snd (authenticate_resume creds agent s))"
  by (cases creds agent s rule: authenticate_resume_cases) (simp_all add: openHasProcess_def)

lemma openHasProcess_getUnauthenticatedResource:
  "openHasProcess s \<Longrightarrow> openHasProcess (snd (getUnauthenticatedResource env s))"
  by (cases env s rule: getUnauthenticatedResource_cases) (simp_all add: openHasProcess_def)

lemma openHasProcess_getUnauthenticatedResource_resume:
  "openHasProcess s \<Longrightarrow> openHasProcess (snd (getUnauthenticatedResource_resume env agent s))"
  by (cases env agent s rule: getUnauthenticatedResource_resume_cases)
     (simp_all add: openHasProcess_def)

lemma openHasProcess_resume: "openHasProcess s \<Longrightarrow> openHasProcess (resume env s)"
proof (cases "suspended s")
  case Nil
  assume "openHasProcess s"
  with Nil show ?thesis by (simp add: resume_def)
next
  case (Cons e rest)
  assume o: "openHasProcess s"
  obtain x helper where e: "e = (x, helper)" by (cases e)
  have "openHasProcess (s\<lparr>suspended := rest\<rparr>)"
    by (rule openHasProcess_frame[OF o]) simp_all
  then show ?thesis
    using Cons e
    by (cases x)
       (simp_all add: resume_def openHasProcess_authenticate_resume
          openHasProcess_getUnauthenticatedResource_resume)
qed

lemma openHasProcess_dropAuthenticated:
  "openHasProcess s \<Longrightarrow> openHasProcess (dropAuthenticated p s)"
  by (simp add: openHasProcess_def)

lemma openHasProcess_reconnect_helper [simp]:
  "openHasProcess (reconnect_helper s) = openHasProcess s"
  by (simp add: openHasProcess_def)

lemma openHasProcess_authenticate_failed:
  "openHasProcess s \<Longrightarrow> openHasProcess (authenticate_failed p err s)"
  by (cases err)
     (simp_all add: authenticate_failed_def Let_def openHasProcess_def)

lemma openHasProcess_close_listener:
  "openHasProcess s \<Longrightarrow> openHasProcess (authenticated_close_listener p code s)"
  by (simp add: authenticated_close_listener_def Let_def openHasProcess_def)

lemma openHasProcess_continues:
  assumes o: "openHasProcess s" and ns: "\<not> superseded (Continues p) s"
  shows "openHasProcess (continues p s)"
proof (cases "p \<in> set (awaiting s)")
  case False
  with o show ?thesis by (simp add: continues_def)
next
  case aw: True
  let ?s1 = "s\<lparr>awaiting := removeAll p (awaiting s)\<rparr>"
  have o1: "openHasProcess ?s1"
    by (rule openHasProcess_frame[OF o]) simp_all
  show ?thesis
  proof (cases "procs s p")
    case None
    with o show ?thesis by (simp add: continues_def)
  next
    case (Some x)
    obtain k st where x: "x = (k, st)" by (cases x)
    have conn: "openHasProcess (authenticate_connected p ?s1)"
      if "k = AuthenticatedProc" "st = Connected"
    proof -
      from ns aw Some x that have "authenticated s = Some p"
        by (simp add: superseded_def)
      then show ?thesis
        by (simp add: openHasProcess_def authenticate_connected_def Let_def)
    qed
    have unauth: "openHasProcess (unauthenticated_failed p ?s1)"
      unfolding unauthenticated_failed_def
      by (rule openHasProcess_frame[OF o1]) simp_all
    show ?thesis
      using o o1 conn unauth aw Some x
      by (cases k; cases st)
         (simp_all add: continues_def openHasProcess_authenticate_failed)
  qed
qed

lemma openHasProcess_settle [simp]: "openHasProcess (settle p k st s) = openHasProcess s"
  by (simp add: openHasProcess_def)

lemma openHasProcess_process_connected:
  "openHasProcess s \<Longrightarrow> openHasProcess (process_connected p s)"
  by (simp add: process_connected_def split: option.splits prod.splits pstate.splits)

lemma openHasProcess_process_failed:
  "openHasProcess s \<Longrightarrow> openHasProcess (process_failed p err s)"
  by (simp add: process_failed_def split: option.splits prod.splits pstate.splits)

lemma openHasProcess_dropUnauthenticated [simp]:
  "openHasProcess (dropUnauthenticated p s) = openHasProcess s"
  by (simp add: openHasProcess_def)

lemma openHasProcess_resource_closed:
  "openHasProcess s \<Longrightarrow> openHasProcess (resource_closed p code s)"
  by (simp add: resource_closed_def openHasProcess_close_listener
      unauthenticated_close_listener_def
      split: option.splits prod.splits pkind.splits pstate.splits)

lemma openHasProcess_incoming_request:
  "openHasProcess s \<Longrightarrow> openHasProcess (incoming_request p req s)"
  by (simp add: incoming_request_def queueOrHandleRequest_def openHasProcess_def
      split: option.splits prod.splits pkind.splits pstate.splits)

lemma openHasProcess_reconnect_helper_wake:
  assumes "openHasProcess s"
  shows "openHasProcess (reconnect_helper_wake env c s)"
proof -
  define s1 where "s1 = s\<lparr>sleeping := removeAll c (sleeping s),
                 reconnectController :=
                   (if reconnectController s = Some c then None else reconnectController s)\<rparr>"
  have "openHasProcess s1"
    by (rule openHasProcess_frame[OF assms]) (simp_all add: s1_def)
  then show ?thesis
    by (simp add: reconnect_helper_wake_def Let_def s1_def[symmetric]
        openHasProcess_authenticate split: option.splits)
qed

lemma openHasProcess_expiration_timer_fired:
  assumes "openHasProcess s"
  shows "openHasProcess (expiration_timer_fired env t p s)"
proof -
  have "openHasProcess (s\<lparr>expirationTimers := filter (\<lambda>(t', _). t' \<noteq> t) (expirationTimers s)\<rparr>)"
    by (rule openHasProcess_frame[OF assms]) simp_all
  then show ?thesis
    by (simp add: expiration_timer_fired_def Let_def
        openHasProcess_getUnauthenticatedResource)
qed

lemma openHasProcess_getAuthenticatedResource:
  "openHasProcess s \<Longrightarrow> openHasProcess (snd (getAuthenticatedResource env s))"
  by (simp add: getAuthenticatedResource_def openHasProcess_authenticate split: option.splits)

lemma openHasProcess_fetch_resource:
  "openHasProcess s \<Longrightarrow> openHasProcess (snd (fetch_resource env init s))"
  by (simp add: fetch_resource_def openHasProcess_getAuthenticatedResource
      openHasProcess_getUnauthenticatedResource)

lemma openHasProcess_misc:
  "openHasProcess s \<Longrightarrow> openHasProcess (fetch_arms_timer r s)"
  "openHasProcess s \<Longrightarrow> openHasProcess (fetch_sends env r u init s)"
  "openHasProcess s \<Longrightarrow> openHasProcess (registerRequestHandler h s)"
  "openHasProcess s \<Longrightarrow> openHasProcess (unregisterRequestHandler h s)"
  "openHasProcess s \<Longrightarrow> openHasProcess (onNavigatorOffline s)"
  "openHasProcess s \<Longrightarrow> openHasProcess (onRemoteExpiration s)"
  by (simp_all add: fetch_arms_timer_def fetch_sends_def
      startUnauthenticatedExpirationTimer_def fetch_send_def registerRequestHandler_def
      unregisterRequestHandler_def onNavigatorOffline_def onRemoteExpiration_def
      fold_queueOrHandleRequest Let_def openHasProcess_def
      split: option.splits sum.splits prod.splits pstate.splits)

lemma openHasProcess_drop_current:
  "openHasProcess s \<Longrightarrow>
   openHasProcess (case authenticated s of None \<Rightarrow> s | Some a \<Rightarrow> dropAuthenticated a (abort a s))"
  by (auto simp add: openHasProcess_def split: option.splits)

lemma openHasProcess_logout: "openHasProcess s \<Longrightarrow> openHasProcess (logout s)"
  unfolding logout_def Let_def
  by (rule openHasProcess_frame[OF openHasProcess_drop_current]) simp_all

lemma openHasProcess_reconnect:
  assumes "openHasProcess s"
  shows "openHasProcess (snd (reconnect env s))"
proof -
  define s1 where "s1 = (case authenticated s of None \<Rightarrow> s | Some a \<Rightarrow> dropAuthenticated a (abort a s))"
  define s2 where "s2 = (case unauthenticated s of None \<Rightarrow> s1 | Some u \<Rightarrow> dropUnauthenticated u (abort u s1))"
  have o1: "openHasProcess s1"
    unfolding s1_def by (rule openHasProcess_drop_current[OF assms])
  have o2: "openHasProcess s2"
    by (rule openHasProcess_frame[OF o1]) (simp_all add: s2_def split: option.splits)
  have o3: "openHasProcess (abortReconnect (s2\<lparr>backOff := reset None (backOff s2)\<rparr>))"
    by (rule openHasProcess_frame[OF o2]) simp_all
  show ?thesis
    using o2 o3
    by (simp add: reconnect_def Let_def s1_def[symmetric] s2_def[symmetric]
        openHasProcess_authenticate split: option.splits)
qed

lemma openHasProcess_onHasStoriesDisabledChange:
  assumes "openHasProcess s"
  shows "openHasProcess (snd (onHasStoriesDisabledChange env b s))"
proof -
  have "openHasProcess (s\<lparr>hasStoriesDisabled := b\<rparr>)"
    by (rule openHasProcess_frame[OF assms]) simp_all
  with assms show ?thesis
    by (simp add: onHasStoriesDisabledChange_def openHasProcess_reconnect)
qed

lemma openHasProcess_onNavigatorOnline:
  assumes "openHasProcess s"
  shows "openHasProcess (snd (onNavigatorOnline env s))"
proof -
  define s1 where "s1 = s\<lparr>isNavigatorOffline := False,
                 backOff := reset (Some FIBONACCI_TIMEOUTS) (backOff s)\<rparr>"
  have o1: "openHasProcess s1"
    by (rule openHasProcess_frame[OF assms]) (simp_all add: s1_def)
  have "openHasProcess (abortReconnect s1)"
    by (rule openHasProcess_frame[OF o1]) simp_all
  with o1 show ?thesis
    by (simp add: onNavigatorOnline_def Let_def s1_def[symmetric] openHasProcess_authenticate
        split: option.splits)
qed

lemma openHasProcess_step:
  "openHasProcess s \<Longrightarrow> \<not> superseded ev s \<Longrightarrow> openHasProcess (step env ev s)"
  by (cases ev)
     (simp_all add: step_def openHasProcess_authenticate openHasProcess_resume
        openHasProcess_continues openHasProcess_process_connected
        openHasProcess_process_failed openHasProcess_resource_closed
        openHasProcess_incoming_request openHasProcess_reconnect_helper_wake
        openHasProcess_expiration_timer_fired openHasProcess_getAuthenticatedResource
        openHasProcess_getUnauthenticatedResource openHasProcess_fetch_resource
        openHasProcess_misc openHasProcess_reconnect
        openHasProcess_onHasStoriesDisabledChange openHasProcess_onNavigatorOnline
        openHasProcess_logout split: option.splits)

lemma openHasProcess_run:
  "openHasProcess s \<Longrightarrow> orderly env evs s \<Longrightarrow> openHasProcess (run env evs s)"
  unfolding run_def by (induction evs arbitrary: s) (simp_all add: openHasProcess_step)

subsection \<open>Stored credentials are not empty\<close>

lemma storedCredentialsGiven_await_call [simp]:
  "storedCredentialsGiven (await_call helper r) = storedCredentialsGiven (snd r)"
  by (simp add: storedCredentialsGiven_def)

lemma storedCredentialsGiven_frame:
  "storedCredentialsGiven s \<Longrightarrow> credentials s' = credentials s \<Longrightarrow> storedCredentialsGiven s'"
  by (simp add: storedCredentialsGiven_def)

lemma storedCredentialsGiven_new: "storedCredentialsGiven (new_manager opts)"
  by (simp add: storedCredentialsGiven_def new_manager_def)

lemma storedCredentialsGiven_authenticate:
  "storedCredentialsGiven s \<Longrightarrow> storedCredentialsGiven (snd (authenticate env creds s))"
  by (cases env creds s rule: authenticate_cases) (auto simp add: storedCredentialsGiven_def)

lemma credentials_authenticate_resume [simp]:
  "credentials (snd (authenticate_resume creds agent s)) = credentials s"
  by (cases creds agent s rule: authenticate_resume_cases) (simp_all split: option.splits)

lemma credentials_getUnauthenticatedResource [simp]:
  "credentials (snd (getUnauthenticatedResource env s)) = credentials s"
  by (cases env s rule: getUnauthenticatedResource_cases) simp_all

lemma credentials_getUnauthenticatedResource_resume [simp]:
  "credentials (snd (getUnauthenticatedResource_resume env agent s)) = credentials s"
  by (cases env agent s rule: getUnauthenticatedResource_resume_cases) simp_all

lemma credentials_resume: "credentials (resume env s) = credentials s"
proof (cases "suspended s")
  case Nil
  then show ?thesis by (simp add: resume_def)
next
  case (Cons e rest)
  obtain x helper where e: "e = (x, helper)" by (cases e)
  show ?thesis
    using Cons e by (cases x) (simp_all add: resume_def)
qed

lemma credentials_authenticate_failed:
  "credentials (authenticate_failed p err s) = credentials s"
  by (cases err) (simp_all add: authenticate_failed_def Let_def)

lemma credentials_close_listener:
  "credentials (authenticated_close_listener p code s) = credentials s"
  by (simp add: authenticated_close_listener_def Let_def)

lemma credentials_continues: "credentials (continues p s) = credentials s"
  by (simp add: continues_def Let_def authenticate_connected_def credentials_authenticate_failed
      unauthenticated_failed_def
      split: option.splits prod.splits pkind.splits pstate.splits)

lemma credentials_process_connected: "credentials (process_connected p s) = credentials s"
  by (simp add: process_connected_def split: option.splits prod.splits pstate.splits)

lemma credentials_process_failed: "credentials (process_failed p err s) = credentials s"
  by (simp add: process_failed_def split: option.splits prod.splits pstate.splits)

lemma credentials_resource_closed: "credentials (resource_closed p code s) = credentials s"
  by (simp add: resource_closed_def credentials_close_listener unauthenticated_close_listener_def
      split: option.splits prod.splits pkind.splits pstate.splits)

lemma credentials_misc:
  "credentials (incoming_request p req s) = credentials s"
  "credentials (fetch_arms_timer r s) = credentials s"
  "credentials (fetch_sends env r u init s) = credentials s"
  "credentials (registerRequestHandler h s) = credentials s"
  "credentials (unregisterRequestHandler h s) = credentials s"
  "credentials (onNavigatorOffline s) = credentials s"
  "credentials (onRemoteExpiration s) = credentials s"
  by (simp_all add: incoming_request_def queueOrHandleRequest_def fetch_arms_timer_def
      fetch_sends_def startUnauthenticatedExpirationTimer_def fetch_send_def
      registerRequestHandler_def unregisterRequestHandler_def onNavigatorOffline_def
      onRemoteExpiration_def fold_queueOrHandleRequest Let_def
      split: option.splits sum.splits prod.splits pkind.splits pstate.splits)

lemma storedCredentialsGiven_reconnect_helper_wake:
  assumes "storedCredentialsGiven s"
  shows "storedCredentialsGiven (reconnect_helper_wake env c s)"
proof -
  define s1 where "s1 = s\<lparr>sleeping := removeAll c (sleeping s),
                 reconnectController :=
                   (if reconnectController s = Some c then None else reconnectController s)\<rparr>"
  have "storedCredentialsGiven s1"
    by (rule storedCredentialsGiven_frame[OF assms]) (simp add: s1_def)
  then show ?thesis
    by (simp add: reconnect_helper_wake_def Let_def s1_def[symmetric]
        storedCredentialsGiven_authenticate split: option.splits)
qed

lemma storedCredentialsGiven_expiration_timer_fired:
  "storedCredentialsGiven s \<Longrightarrow> storedCredentialsGiven (expiration_timer_fired env t p s)"
  by (simp add: expiration_timer_fired_def Let_def storedCredentialsGiven_def)

lemma storedCredentialsGiven_getAuthenticatedResource:
  "storedCredentialsGiven s \<Longrightarrow> storedCredentialsGiven (snd (getAuthenticatedResource env s))"
  by (simp add: getAuthenticatedResource_def storedCredentialsGiven_authenticate
      split: option.splits)

lemma storedCredentialsGiven_getUnauthenticatedResource:
  "storedCredentialsGiven s \<Longrightarrow> storedCredentialsGiven (snd (getUnauthenticatedResource env s))"
  by (simp add: storedCredentialsGiven_def)

lemma storedCredentialsGiven_fetch_resource:
  "storedCredentialsGiven s \<Longrightarrow> storedCredentialsGiven (snd (fetch_resource env init s))"
  by (simp add: fetch_resource_def storedCredentialsGiven_getAuthenticatedResource
      storedCredentialsGiven_getUnauthenticatedResource)

lemma storedCredentialsGiven_reconnect:
  assumes "storedCredentialsGiven s"
  shows "storedCredentialsGiven (snd (reconnect env s))"
proof -
  define s1 where "s1 = (case authenticated s of None \<Rightarrow> s | Some a \<Rightarrow> dropAuthenticated a (abort a s))"
  define s2 where "s2 = (case unauthenticated s of None \<Rightarrow> s1 | Some u \<Rightarrow> dropUnauthenticated u (abort u s1))"
  have c2: "credentials s2 = credentials s"
    by (simp add: s2_def s1_def split: option.splits)
  have g2: "storedCredentialsGiven s2"
    by (rule storedCredentialsGiven_frame[OF assms c2])
  have g3: "storedCredentialsGiven (abortReconnect (s2\<lparr>backOff := reset None (backOff s2)\<rparr>))"
    by (rule storedCredentialsGiven_frame[OF g2]) simp
  show ?thesis
    using g2 g3
    by (simp add: reconnect_def Let_def s1_def[symmetric] s2_def[symmetric]
        storedCredentialsGiven_authenticate split: option.splits)
qed

lemma storedCredentialsGiven_onHasStoriesDisabledChange:
  assumes "storedCredentialsGiven s"
  shows "storedCredentialsGiven (snd (onHasStoriesDisabledChange env b s))"
proof -
  have "storedCredentialsGiven (s\<lparr>hasStoriesDisabled := b\<rparr>)"
    by (rule storedCredentialsGiven_frame[OF assms]) simp
  with assms show ?thesis
    by (simp add: onHasStoriesDisabledChange_def storedCredentialsGiven_reconnect)
qed

lemma storedCredentialsGiven_onNavigatorOnline:
  assumes "storedCredentialsGiven s"
  shows "storedCredentialsGiven (snd (onNavigatorOnline env s))"
proof -
  define s1 where "s1 = s\<lparr>isNavigatorOffline := False,
                 backOff := reset (Some FIBONACCI_TIMEOUTS) (backOff s)\<rparr>"
  have g1: "storedCredentialsGiven s1"
    by (rule storedCredentialsGiven_frame[OF assms]) (simp add: s1_def)
  have "storedCredentialsGiven (abortReconnect s1)"
    by (rule storedCredentialsGiven_frame[OF g1]) simp
  with g1 show ?thesis
    by (simp add: onNavigatorOnline_def Let_def s1_def[symmetric]
        storedCredentialsGiven_authenticate split: option.splits)
qed

lemma storedCredentialsGiven_logout: "storedCredentialsGiven (logout s)"
  by (simp add: logout_def Let_def storedCredentialsGiven_def)

lemma storedCredentialsGiven_step:
  "storedCredentialsGiven s \<Longrightarrow> storedCredentialsGiven (step env ev s)"
  by (cases ev)
     (simp_all add: step_def storedCredentialsGiven_authenticate
        storedCredentialsGiven_reconnect_helper_wake
        storedCredentialsGiven_expiration_timer_fired
        storedCredentialsGiven_getAuthenticatedResource
        storedCredentialsGiven_fetch_resource storedCredentialsGiven_reconnect
        storedCredentialsGiven_onHasStoriesDisabledChange
        storedCredentialsGiven_onNavigatorOnline storedCredentialsGiven_logout
        storedCredentialsGiven_frame[OF _ credentials_resume]
        storedCredentialsGiven_frame[OF _ credentials_continues]
        storedCredentialsGiven_frame[OF _ credentials_process_connected]
        storedCredentialsGiven_frame[OF _ credentials_process_failed]
        storedCredentialsGiven_frame[OF _ credentials_resource_closed]
        storedCredentialsGiven_frame[OF _ credentials_misc(1)]
        storedCredentialsGiven_frame[OF _ credentials_misc(2)]
        storedCredentialsGiven_frame[OF _ credentials_misc(3)]
        storedCredentialsGiven_frame[OF _ credentials_misc(4)]
        storedCredentialsGiven_frame[OF _ credentials_misc(5)]
        storedCredentialsGiven_frame[OF _ credentials_misc(6)]
        storedCredentialsGiven_frame[OF _ credentials_misc(7)]
        storedCredentialsGiven_getUnauthenticatedResource
        split: option.splits)

lemma storedCredentialsGiven_run:
  "storedCredentialsGiven s \<Longrightarrow> storedCredentialsGiven (run env evs s)"
  unfolding run_def by (induction evs arbitrary: s) (simp_all add: storedCredentialsGiven_step)

subsection \<open>Remote expiration is never undone\<close>

lemma expired_authenticate [simp]:
  "isRemotelyExpired (snd (authenticate env creds s)) = isRemotelyExpired s"
  by (cases env creds s rule: authenticate_cases) simp_all

lemma expired_authenticate_resume [simp]:
  "isRemotelyExpired (snd (authenticate_resume creds agent s)) = isRemotelyExpired s"
  by (cases creds agent s rule: authenticate_resume_cases) (simp_all split: option.splits)

lemma expired_getUnauthenticatedResource [simp]:
  "isRemotelyExpired (snd (getUnauthenticatedResource env s)) = isRemotelyExpired s"
  by (cases env s rule: getUnauthenticatedResource_cases) simp_all

lemma expired_getUnauthenticatedResource_resume [simp]:
  "isRemotelyExpired (snd (getUnauthenticatedResource_resume env agent s)) = isRemotelyExpired s"
  by (cases env agent s rule: getUnauthenticatedResource_resume_cases) simp_all

lemma expired_resume: "isRemotelyExpired (resume env s) = isRemotelyExpired s"
proof (cases "suspended s")
  case Nil
  then show ?thesis by (simp add: resume_def)
next
  case (Cons e rest)
  obtain x helper where e: "e = (x, helper)" by (cases e)
  show ?thesis
    using Cons e by (cases x) (simp_all add: resume_def)
qed

lemma expired_authenticate_failed:
  "isRemotelyExpired (authenticate_failed p err s) = isRemotelyExpired s"
  by (cases err) (simp_all add: authenticate_failed_def Let_def)

lemma expired_close_listener:
  "isRemotelyExpired (authenticated_close_listener p code s) = isRemotelyExpired s"
  by (simp add: authenticated_close_listener_def Let_def)

lemma expired_process_connected:
  "isRemotelyExpired (process_connected p s) = isRemotelyExpired s"
  by (simp add: process_connected_def split: option.splits prod.splits pstate.splits)

lemma expired_process_failed:
  "isRemotelyExpired (process_failed p err s) = isRemotelyExpired s"
  by (simp add: process_failed_def split: option.splits prod.splits pstate.splits)

lemma expired_continues:
  "isRemotelyExpired (continues p s) = isRemotelyExpired s"
  by (simp add: continues_def Let_def authenticate_connected_def expired_authenticate_failed
      unauthenticated_failed_def
      split: option.splits prod.splits pkind.splits pstate.splits)

lemma expired_resource_closed:
  "isRemotelyExpired (resource_closed p code s) = isRemotelyExpired s"
  by (simp add: resource_closed_def expired_close_listener unauthenticated_close_listener_def
      split: option.splits prod.splits pkind.splits pstate.splits)

lemma expired_incoming_request:
  "isRemotelyExpired (incoming_request p req s) = isRemotelyExpired s"
  by (simp add: incoming_request_def queueOrHandleRequest_def
      split: option.splits prod.splits pkind.splits pstate.splits)

lemma expired_reconnect_helper_wake:
  "isRemotelyExpired (reconnect_helper_wake env c s) = isRemotelyExpired s"
  by (simp add: reconnect_helper_wake_def Let_def split: option.splits)

lemma expired_expiration_timer_fired:
  "isRemotelyExpired (expiration_timer_fired env t p s) = isRemotelyExpired s"
  by (simp add: expiration_timer_fired_def Let_def)

lemma expired_getAuthenticatedResource:
  "isRemotelyExpired (snd (getAuthenticatedResource env s)) = isRemotelyExpired s"
  by (simp add: getAuthenticatedResource_def split: option.splits)

lemma expired_fetch_resource:
  "isRemotelyExpired (snd (fetch_resource env init s)) = isRemotelyExpired s"
  by (simp add: fetch_resource_def expired_getAuthenticatedResource)

lemma expired_misc:
  "isRemotelyExpired (fetch_arms_timer r s) = isRemotelyExpired s"
  "isRemotelyExpired (fetch_sends env r u init s) = isRemotelyExpired s"
  "isRemotelyExpired (registerRequestHandler h s) = isRemotelyExpired s"
  "isRemotelyExpired (unregisterRequestHandler h s) = isRemotelyExpired s"
  "isRemotelyExpired (onNavigatorOffline s) = isRemotelyExpired s"
  "isRemotelyExpired (logout s) = isRemotelyExpired s"
  by (simp_all add: fetch_arms_timer_def fetch_sends_def
      startUnauthenticatedExpirationTimer_def fetch_send_def registerRequestHandler_def
      unregisterRequestHandler_def onNavigatorOffline_def logout_def
      fold_queueOrHandleRequest Let_def
      split: option.splits sum.splits prod.splits pstate.splits)

lemma expired_reconnect:
  "isRemotelyExpired (snd (reconnect env s)) = isRemotelyExpired s"
  by (simp add: reconnect_def Let_def split: option.splits)

lemma expired_onHasStoriesDisabledChange:
  "isRemotelyExpired (snd (onHasStoriesDisabledChange env b s)) = isRemotelyExpired s"
  by (simp add: onHasStoriesDisabledChange_def expired_reconnect)

lemma expired_onNavigatorOnline:
  "isRemotelyExpired (snd (onNavigatorOnline env s)) = isRemotelyExpired s"
  by (simp add: onNavigatorOnline_def Let_def split: option.splits)

lemma expired_onRemoteExpiration: "isRemotelyExpired (onRemoteExpiration s)"
  by (simp add: onRemoteExpiration_def)

lemma expired_step: "isRemotelyExpired s \<Longrightarrow> isRemotelyExpired (step env ev s)"
  by (cases ev)
     (simp_all add: step_def expired_resume expired_continues expired_process_connected
        expired_process_failed expired_resource_closed expired_incoming_request
        expired_reconnect_helper_wake expired_expiration_timer_fired
        expired_getAuthenticatedResource expired_fetch_resource expired_misc
        expired_reconnect expired_onHasStoriesDisabledChange expired_onNavigatorOnline
        expired_onRemoteExpiration split: option.splits)

lemma expired_run: "isRemotelyExpired s \<Longrightarrow> isRemotelyExpired (run env evs s)"
  unfolding run_def by (induction evs arbitrary: s) (simp_all add: expired_step)

subsection \<open>Failure of the authenticated connection\<close>

lemma events_dropAuthenticated:
  "authenticated s = Some p \<Longrightarrow>
   events (dropAuthenticated p s) = events s @ (if status s = CLOSED then [] else [StatusChange])"
  by (simp add: dropAuthenticated_def setStatus_def emit_def Let_def)

lemma privIsOnline_dropAuthenticated [simp]:
  "privIsOnline (dropAuthenticated p s) = privIsOnline s"
  by (simp add: dropAuthenticated_def setStatus_def emit_def Let_def)

lemma reconnect_helper_scheduled:
  "sleeping (reconnect_helper s) =
     (if isRemotelyExpired s then sleeping s else sleeping s @ [nextId s])"
  "reconnectController (reconnect_helper s) =
     (if isRemotelyExpired s then reconnectController s else Some (nextId s))"
  "bo_count (backOff (reconnect_helper s)) =
     (if isRemotelyExpired s then bo_count (backOff s) else bo_count (backOff s) + 1)"
  "events (reconnect_helper s) = events s"
  "privIsOnline (reconnect_helper s) = privIsOnline s"
  "incomingRequestQueue (reconnect_helper s) = incomingRequestQueue s"
  "requestHandlers (reconnect_helper s) = requestHandlers s"
  "handled (reconnect_helper s) = handled s"
  by (simp_all add: reconnect_helper_def getAndIncrement_def Let_def)

text \<open>
  C1, as amended. When the connection attempt of \<^verbatim>\<open>authenticate\<close> fails with an
  \<^verbatim>\<open>HTTPError\<close> and the failing process is still the current one, the process is
  dropped, which emits \<^verbatim>\<open>statusChange\<close> unless the status was already
  \<open>CLOSED\<close>. For 401 and 403 an \<^verbatim>\<open>authError\<close> is emitted and no reconnect is
  scheduled. For a code from 500 to 599 and for -1 a reconnect is scheduled unless the manager
  is remotely expired; only for -1 is the online flag set to false, with
  \<^verbatim>\<open>offline\<close> emitted unless the flag was false already, and a code from 500 to
  599 leaves the flag alone and emits no \<^verbatim>\<open>offline\<close>. For any other code no
  reconnect is scheduled and neither \<^verbatim>\<open>authError\<close> nor \<^verbatim>\<open>offline\<close>
  is emitted.
\<close>

theorem authenticate_failed_policy:
  assumes "authenticated s = Some p"
    and "s' = authenticate_failed p (HTTPError code) s"
    and "dropped = events s @ (if status s = CLOSED then [] else [StatusChange])"
    and "scheduled = (if isRemotelyExpired s then sleeping s else sleeping s @ [nextId s])"
  shows "authenticated s' = None
       \<and> (code = 401 \<or> code = 403 \<longrightarrow>
            events s' = dropped @ [AuthError code] \<and> sleeping s' = sleeping s
            \<and> privIsOnline s' = privIsOnline s)
       \<and> (500 \<le> code \<and> code \<le> 599 \<longrightarrow>
            sleeping s' = scheduled \<and> events s' = dropped \<and> privIsOnline s' = privIsOnline s)
       \<and> (code = - 1 \<longrightarrow>
            sleeping s' = scheduled \<and> privIsOnline s' = Some False
            \<and> events s' = dropped @ (if privIsOnline s = Some False then [] else [Offline]))
       \<and> (code \<noteq> 401 \<and> code \<noteq> 403 \<and> \<not> (500 \<le> code \<and> code \<le> 599) \<and> code \<noteq> - 1 \<longrightarrow>
            sleeping s' = sleeping s \<and> events s' = dropped \<and> privIsOnline s' = privIsOnline s)"
  using assms
  by (auto simp add: authenticate_failed_def Let_def emit_def reconnect_helper_scheduled
      events_dropAuthenticated)

text \<open>
  The theorem at the connecting manager, whose process 0 fails with the code -1: the online
  flag becomes false, \<^verbatim>\<open>offline\<close> follows the \<^verbatim>\<open>statusChange\<close> of the
  drop, and the sleep numbered 1 is pending.
\<close>

theorem authenticate_failed_policy_witness:
  "authenticated connecting_manager = Some 0
   \<and> privIsOnline (authenticate_failed 0 (HTTPError (- 1)) connecting_manager) = Some False
   \<and> events (authenticate_failed 0 (HTTPError (- 1)) connecting_manager) =
       events connecting_manager @ [StatusChange, Offline]
   \<and> sleeping (authenticate_failed 0 (HTTPError (- 1)) connecting_manager) = [1]"
proof -
  have cur: "authenticated connecting_manager = Some 0"
    by code_simp
  have st: "status connecting_manager = CONNECTING" "privIsOnline connecting_manager = None"
    "\<not> isRemotelyExpired connecting_manager" "sleeping connecting_manager = []"
    "nextId connecting_manager = 1"
    by code_simp+
  show ?thesis
    using authenticate_failed_policy[where code = "- 1", OF cur refl refl refl] cur st
    by simp
qed

text \<open>
  C1 as the spec states it fails. At the connecting manager a failure with the code 500
  schedules a reconnect but neither sets the online flag to false nor emits
  \<^verbatim>\<open>offline\<close>; a failure with the code 404 emits \<^verbatim>\<open>statusChange\<close>;
  and once the manager is remotely expired a failure with the code 500 schedules nothing.
\<close>

theorem authenticate_failed_5xx_counterexample:
  "authenticated connecting_manager = Some 0
   \<and> sleeping (authenticate_failed 0 (HTTPError 500) connecting_manager) = [1]
   \<and> privIsOnline (authenticate_failed 0 (HTTPError 500) connecting_manager) \<noteq> Some False
   \<and> Offline \<notin> set (events (authenticate_failed 0 (HTTPError 500) connecting_manager))
   \<and> events (authenticate_failed 0 (HTTPError 404) connecting_manager) =
       events connecting_manager @ [StatusChange]
   \<and> authenticated expired_connecting_manager = Some 0
   \<and> sleeping (authenticate_failed 0 (HTTPError 500) expired_connecting_manager) = []"
  by code_simp

subsection \<open>Close of the authenticated resource\<close>

text \<open>
  C2. For every \<^verbatim>\<open>close\<close> event that reaches the listener of the authenticated
  resource while its process is the current one and the manager is not remotely expired: the
  process is dropped; with the code 3000 or 4409 no reconnect is scheduled; with any other
  code exactly one is (one more pending sleep, which the reconnect controller now belongs to,
  and one more step of the back-off).
\<close>

theorem close_listener_reconnects_once:
  assumes "authenticated s = Some p"
    and "\<not> isRemotelyExpired s"
    and "s' = authenticated_close_listener p code s"
  shows "authenticated s' = None
       \<and> (code = 3000 \<or> code = 4409 \<longrightarrow>
            sleeping s' = sleeping s \<and> reconnectController s' = reconnectController s
            \<and> backOff s' = backOff s)
       \<and> (code \<noteq> 3000 \<and> code \<noteq> 4409 \<longrightarrow>
            sleeping s' = sleeping s @ [nextId s] \<and> reconnectController s' = Some (nextId s)
            \<and> length (sleeping s') = length (sleeping s) + 1
            \<and> bo_count (backOff s') = bo_count (backOff s) + 1)"
  using assms
  by (auto simp add: authenticated_close_listener_def Let_def reconnect_helper_scheduled
      dropAuthenticated_def setStatus_def emit_def)

text \<open>
  The theorem at a manager whose connected process 0 closes with the code 1006, and with
  the code 3000.
\<close>

theorem close_listener_reconnects_once_witness:
  "authenticated (run example_env connected_events (new_manager example_options)) = Some 0
   \<and> \<not> isRemotelyExpired (run example_env connected_events (new_manager example_options))
   \<and> sleeping (authenticated_close_listener 0 1006
        (run example_env connected_events (new_manager example_options))) = [1]
   \<and> sleeping (authenticated_close_listener 0 3000
        (run example_env connected_events (new_manager example_options))) = []"
proof -
  have h: "authenticated (run example_env connected_events (new_manager example_options)) = Some 0"
    "\<not> isRemotelyExpired (run example_env connected_events (new_manager example_options))"
    by code_simp+
  have st: "sleeping (run example_env connected_events (new_manager example_options)) = []"
    "nextId (run example_env connected_events (new_manager example_options)) = 1"
    by code_simp+
  show ?thesis
    using close_listener_reconnects_once[where code = 1006, OF h refl]
      close_listener_reconnects_once[where code = 3000, OF h refl] h st
    by simp
qed

subsection \<open>Unchanged credentials\<close>

text \<open>
  C3, as amended. In every state that a run of the manager reaches, while the manager is not
  remotely expired, a call of \<^verbatim>\<open>authenticate\<close> with the user name and password of
  the stored credentials, while an authenticated process exists, awaits the result of that
  process and changes nothing, so it opens no connection; and whether the awaited result is a
  failure or a resource, the call then returns.
\<close>

theorem authenticate_same_credentials_awaits_existing:
  assumes "s = run env evs (new_manager opts)"
    and "sameCredentials (credentials s) creds"
    and "authenticated s = Some p"
    and "\<not> isRemotelyExpired s"
  shows "authenticate env creds s = (AwaitsExisting p, s)
       \<and> connects (snd (authenticate env creds s)) = connects s
       \<and> authenticate_existing_settled (Inl err) s = (Returned, s)
       \<and> authenticate_existing_settled (Inr r) s = (Returned, s)"
proof -
  have g: "storedCredentialsGiven s"
    unfolding assms(1) by (rule storedCredentialsGiven_run[OF storedCredentialsGiven_new])
  from assms(2) obtain c where c: "credentials s = Some c"
    and eq: "username c = username creds" "password c = password creds"
    by (auto simp add: sameCredentials_def split: option.splits)
  from g c eq
  have "\<not> (username creds = [] \<and> password creds = [])"
    by (auto simp add: storedCredentialsGiven_def)
  with assms(2,3,4) show ?thesis
    by (simp add: authenticate_def authenticate_existing_settled_def)
qed

text \<open>The theorem at the connecting manager, called again with the credentials it has.\<close>

theorem authenticate_same_credentials_awaits_existing_witness:
  "sameCredentials (credentials connecting_manager) example_credentials
   \<and> authenticated connecting_manager = Some 0
   \<and> \<not> isRemotelyExpired connecting_manager
   \<and> fst (authenticate example_env example_credentials connecting_manager) = AwaitsExisting 0
   \<and> connects (snd (authenticate example_env example_credentials connecting_manager)) =
       [WebSocketConn ''authenticated'' [(''login'', ''alice''), (''password'', ''secret'')]]"
proof -
  have h: "sameCredentials (credentials connecting_manager) example_credentials"
    "authenticated connecting_manager = Some 0"
    "\<not> isRemotelyExpired connecting_manager"
    by code_simp+
  have c: "connects connecting_manager = [WebSocketConn ''authenticated'' [(''login'', ''alice''), (''password'', ''secret'')]]"
    by code_simp
  show ?thesis
    using authenticate_same_credentials_awaits_existing[OF connecting_manager_def h] h c
    by simp
qed

text \<open>
  C3 as the spec states it fails once the manager is remotely expired: the credentials are
  the stored ones and process 0 exists, and the call throws the \<^verbatim>\<open>HTTPError\<close>
  with the code 0 instead of awaiting that process and returning.
\<close>

theorem authenticate_same_credentials_counterexample:
  "sameCredentials (credentials expired_connecting_manager) example_credentials
   \<and> authenticated expired_connecting_manager = Some 0
   \<and> fst (authenticate example_env example_credentials expired_connecting_manager) =
       Threw (HTTPError 0)"
  by code_simp

subsection \<open>Buffered requests\<close>

lemma set_add_Nil: "set_add h [] = [h]"
  by (simp add: set_add_def)

lemma concat_map_single: "concat (map (\<lambda>r. [(h, r)]) reqs) = map (\<lambda>r. (h, r)) reqs"
  by (induction reqs) simp_all

text \<open>
  C4, as amended. With no handler registered, the requests \<open>reqs\<close> that arrive are
  appended to the buffer and none is handed to anyone. Registering the handler \<open>h\<close>
  while they are still in the buffer, whatever else has happened, hands it exactly the
  buffered requests, in arrival order, and leaves the buffer empty; the requests
  \<open>later\<close> that arrive after the registration are handed over after those, and are not
  buffered.
\<close>

theorem buffered_requests_replayed_in_order:
  assumes "requestHandlers s = []"
    and "s1 = fold queueOrHandleRequest reqs s"
    and "requestHandlers s1' = []"
    and "incomingRequestQueue s1' = incomingRequestQueue s1"
    and "s2 = registerRequestHandler h s1'"
    and "s3 = fold queueOrHandleRequest later s2"
  shows "handled s1 = handled s
       \<and> incomingRequestQueue s1 = incomingRequestQueue s @ reqs
       \<and> requestHandlers s2 = [h]
       \<and> handled s2 = handled s1' @ map (\<lambda>r. (h, r)) (incomingRequestQueue s @ reqs)
       \<and> incomingRequestQueue s2 = []
       \<and> handled s3 = handled s2 @ map (\<lambda>r. (h, r)) later
       \<and> incomingRequestQueue s3 = []"
proof -
  have s1: "handled s1 = handled s" "incomingRequestQueue s1 = incomingRequestQueue s @ reqs"
    using assms(1,2) by (simp_all add: fold_queueOrHandleRequest)
  have s2: "requestHandlers s2 = [h]"
    "handled s2 = handled s1' @ map (\<lambda>r. (h, r)) (incomingRequestQueue s @ reqs)"
    "incomingRequestQueue s2 = []"
    using assms(3,4,5) s1(2)
    by (simp_all add: fold_queueOrHandleRequest registerRequestHandler_def Let_def set_add_Nil
        concat_map_single)
  have s3: "handled s3 = handled s2 @ map (\<lambda>r. (h, r)) later" "incomingRequestQueue s3 = []"
    using assms(6) s2(1,3) by (simp_all add: fold_queueOrHandleRequest concat_map_single)
  from s1 s2 s3 show ?thesis by simp
qed

text \<open>
  The theorem at a new manager: the requests 10 and 11 arrive, the navigator goes offline,
  the handler 7 registers, the request 12 arrives.
\<close>

theorem buffered_requests_replayed_in_order_witness:
  "requestHandlers (new_manager example_options) = []
   \<and> requestHandlers (onNavigatorOffline
        (fold queueOrHandleRequest [10, 11] (new_manager example_options))) = []
   \<and> incomingRequestQueue (onNavigatorOffline
        (fold queueOrHandleRequest [10, 11] (new_manager example_options))) =
       incomingRequestQueue (fold queueOrHandleRequest [10, 11] (new_manager example_options))
   \<and> handled (registerRequestHandler 7 (onNavigatorOffline
        (fold queueOrHandleRequest [10, 11] (new_manager example_options)))) =
       [(7, 10), (7, 11)]
   \<and> incomingRequestQueue (registerRequestHandler 7 (onNavigatorOffline
        (fold queueOrHandleRequest [10, 11] (new_manager example_options)))) = []
   \<and> handled (fold queueOrHandleRequest [12] (registerRequestHandler 7 (onNavigatorOffline
        (fold queueOrHandleRequest [10, 11] (new_manager example_options))))) =
       [(7, 10), (7, 11), (7, 12)]"
proof -
  let ?s1 = "fold queueOrHandleRequest [10, 11] (new_manager example_options)"
  have h: "requestHandlers (new_manager example_options) = []"
    by (simp add: new_manager_def)
  have q: "incomingRequestQueue (new_manager example_options) = []"
    by (simp add: new_manager_def)
  have m: "requestHandlers (onNavigatorOffline ?s1) = []"
    "incomingRequestQueue (onNavigatorOffline ?s1) = incomingRequestQueue ?s1"
    "handled (onNavigatorOffline ?s1) = []"
    by (simp_all add: onNavigatorOffline_def queueOrHandleRequest_def new_manager_def)
  show ?thesis
    using buffered_requests_replayed_in_order[where reqs = "[10, 11]" and h = 7
        and later = "[12]", OF h refl m(1) m(2) refl refl] h q m
    by simp
qed

text \<open>
  C4 as the spec states it fails. The requests 10 and 11 arrive on the connected process 0
  while no handler is registered, and are buffered; \<^verbatim>\<open>logout\<close> drops the
  process, which empties the buffer; the handler 7 that registers then is handed nothing.
\<close>

theorem buffered_requests_dropped_counterexample:
  "requestHandlers (run example_env
       (connected_events @ [IncomingRequest 0 10, IncomingRequest 0 11])
       (new_manager example_options)) = []
   \<and> incomingRequestQueue (run example_env
       (connected_events @ [IncomingRequest 0 10, IncomingRequest 0 11])
       (new_manager example_options)) = [10, 11]
   \<and> requestHandlers (run example_env
       (connected_events @ [IncomingRequest 0 10, IncomingRequest 0 11, Logout,
          RegisterRequestHandler 7])
       (new_manager example_options)) = [7]
   \<and> handled (run example_env
       (connected_events @ [IncomingRequest 0 10, IncomingRequest 0 11, Logout,
          RegisterRequestHandler 7])
       (new_manager example_options)) = []"
  by code_simp

subsection \<open>Status\<close>

text \<open>
  C5, as amended. In every state that a run of the manager reaches from a new manager: if the
  authenticated process holds a resource that connected, the status is \<open>OPEN\<close>,
  unless a call of \<^verbatim>\<open>authenticate\<close> is suspended at the proxy agent (it has
  set the status to \<open>CONNECTING\<close> and has yet to replace the process) or the call
  that created the process has yet to continue. Conversely, in a run in which no call of
  \<^verbatim>\<open>authenticate\<close> continues for a process that has been dropped or replaced
  since it connected: if the status is \<open>OPEN\<close>, the authenticated process holds a
  resource that connected, or the call that created it has yet to continue; in every other
  state the status is \<open>CLOSED\<close> or \<open>CONNECTING\<close>.
\<close>

theorem status_open_implies_connected:
  assumes "s = run env evs (new_manager opts)"
  shows "(holdsConnected s \<and> \<not> authSuspended s \<and> \<not> currentAwaited s \<longrightarrow> getStatus s = OPEN)
       \<and> (orderly env evs (new_manager opts) \<and> getStatus s = OPEN \<longrightarrow>
            holdsConnected s \<or> currentAwaited s)
       \<and> (orderly env evs (new_manager opts) \<and> \<not> holdsConnected s \<and> \<not> currentAwaited s \<longrightarrow>
            getStatus s = CLOSED \<or> getStatus s = CONNECTING)"
proof -
  have i: "inv env s"
    unfolding assms by (rule inv_run[OF inv_new])
  have conn: "holdsConnected s \<and> \<not> authSuspended s \<and> \<not> currentAwaited s \<longrightarrow> status s = OPEN"
    using inv_conn[OF i] by blast
  have from_open: "holdsConnected s \<or> currentAwaited s"
    if o: "orderly env evs (new_manager opts)" and st: "status s = OPEN"
  proof -
    have "openHasProcess s"
      unfolding assms by (rule openHasProcess_run[OF openHasProcess_new o])
    with st obtain p where p: "authenticated s = Some p"
      by (auto simp add: openHasProcess_def)
    from inv_current[OF i p] p show ?thesis
      unfolding holdsConnected_iff currentAwaited_iff by blast
  qed
  from conn from_open show ?thesis
    by (cases "status s") (auto simp add: getStatus_def)
qed

text \<open>
  The theorem at two runs: after the authenticated process has connected and its call has
  continued, with no call suspended, the status is \<open>OPEN\<close>; after the resource has
  then closed with the code 1006 the status is not.
\<close>

theorem status_open_implies_connected_witness:
  "holdsConnected (run example_env connected_events (new_manager example_options))
   \<and> \<not> authSuspended (run example_env connected_events (new_manager example_options))
   \<and> \<not> currentAwaited (run example_env connected_events (new_manager example_options))
   \<and> orderly example_env connected_events (new_manager example_options)
   \<and> getStatus (run example_env connected_events (new_manager example_options)) = OPEN
   \<and> orderly example_env (connected_events @ [ResourceClosed 0 1006])
        (new_manager example_options)
   \<and> \<not> holdsConnected (run example_env (connected_events @ [ResourceClosed 0 1006])
          (new_manager example_options))
   \<and> \<not> currentAwaited (run example_env (connected_events @ [ResourceClosed 0 1006])
          (new_manager example_options))
   \<and> getStatus (run example_env (connected_events @ [ResourceClosed 0 1006])
          (new_manager example_options)) \<noteq> OPEN"
proof -
  have h: "holdsConnected (run example_env connected_events (new_manager example_options))"
    "\<not> authSuspended (run example_env connected_events (new_manager example_options))"
    "\<not> currentAwaited (run example_env connected_events (new_manager example_options))"
    "orderly example_env connected_events (new_manager example_options)"
    "orderly example_env (connected_events @ [ResourceClosed 0 1006])
        (new_manager example_options)"
    "\<not> holdsConnected (run example_env (connected_events @ [ResourceClosed 0 1006])
          (new_manager example_options))"
    "\<not> currentAwaited (run example_env (connected_events @ [ResourceClosed 0 1006])
          (new_manager example_options))"
    by code_simp+
  show ?thesis
    using status_open_implies_connected[where env = example_env and evs = connected_events
        and opts = example_options, OF refl]
      status_open_implies_connected[where env = example_env
        and evs = "connected_events @ [ResourceClosed 0 1006]" and opts = example_options,
        OF refl] h
    by auto
qed

text \<open>
  C5 as the spec states it fails, both ways. With the authenticated process 0 connected and
  the status \<open>OPEN\<close>, a call of \<^verbatim>\<open>authenticate\<close> with other
  credentials sets the status to \<open>CONNECTING\<close> and is suspended at
  \<^verbatim>\<open>await this.getProxyAgent()\<close>; process 0 is still the authenticated process
  and still holds its connected resource. Before that, when process 0 has connected and the
  call that created it has yet to continue, the status is still \<open>CONNECTING\<close>. And
  when \<^verbatim>\<open>authenticate\<close> with other credentials is called at that moment,
  the status is \<open>OPEN\<close> once both calls have gone on, while the authenticated
  process is the pending process 1.
\<close>

theorem status_connecting_while_connected_counterexample:
  "holdsConnected (run example_env reauthenticating_events (new_manager example_options))
   \<and> authenticated (run example_env reauthenticating_events (new_manager example_options)) =
       Some 0
   \<and> getStatus (run example_env reauthenticating_events (new_manager example_options)) =
       CONNECTING
   \<and> holdsConnected (run example_env [ProcessConnected 0] connecting_manager)
   \<and> getStatus (run example_env [ProcessConnected 0] connecting_manager) = CONNECTING
   \<and> orderly example_env overtaken_events (new_manager example_options)
   \<and> getStatus (run example_env overtaken_events (new_manager example_options)) = OPEN
   \<and> authenticated (run example_env overtaken_events (new_manager example_options)) = Some 1
   \<and> procs (run example_env overtaken_events (new_manager example_options)) 1 =
       Some (AuthenticatedProc, Pending)
   \<and> \<not> holdsConnected (run example_env overtaken_events (new_manager example_options))"
  by code_simp

text \<open>
  What the amended claim leaves out: \<^verbatim>\<open>logout\<close> is called after process 0 has
  connected and before the call that created it continues. The call then continues for a
  process that has been dropped, and sets the status to \<open>OPEN\<close> with no
  authenticated process.
\<close>

lemma superseded_continuation_sets_open:
  "\<not> orderly example_env logged_out_events (new_manager example_options)
   \<and> getStatus (run example_env logged_out_events (new_manager example_options)) = OPEN
   \<and> authenticated (run example_env logged_out_events (new_manager example_options)) = None"
  by code_simp

subsection \<open>Remote expiration\<close>

text \<open>
  C6, as amended. In every state that a run reaches after \<^verbatim>\<open>onRemoteExpiration\<close>
  has been called: \<^verbatim>\<open>authenticate\<close> throws the \<^verbatim>\<open>HTTPError\<close> with the
  code 0 and the reconnect helper returns, both changing nothing;
  \<^verbatim>\<open>getUnauthenticatedResource\<close> throws the same error when no unauthenticated
  process exists and otherwise returns the result of the existing process, changing nothing
  either way; and a reconnect helper whose sleep ends opens no connection. So none of them
  opens a transport-level connection. (A call that was suspended at the proxy agent before
  the expiration is not such a call, and goes on.)
\<close>

theorem expired_manager_opens_no_connection:
  assumes "s = run env evs (onRemoteExpiration start)"
  shows "authenticate env creds s = (Threw (HTTPError 0), s)
       \<and> reconnect_helper s = s
       \<and> getUnauthenticatedResource env s =
           (case unauthenticated s of
              None \<Rightarrow> (Threw (HTTPError 0), s)
            | Some p \<Rightarrow> (AwaitsExisting p, s))
       \<and> connects (reconnect_helper_wake env c s) = connects s"
proof -
  have e: "isRemotelyExpired s"
    unfolding assms by (rule expired_run[OF expired_onRemoteExpiration])
  have a: "authenticate env creds' s' = (Threw (HTTPError 0), s')"
    if "isRemotelyExpired s'" for creds' s'
    using that by (simp add: authenticate_def)
  have "connects (reconnect_helper_wake env c s) = connects s"
    using e
    by (simp add: reconnect_helper_wake_def Let_def a reconnect_helper_def split: option.splits)
  with e show ?thesis
    by (simp add: a reconnect_helper_def getUnauthenticatedResource_def split: option.splits)
qed

text \<open>
  The theorem at the connecting manager, expired and then told that the navigator is online:
  a further \<^verbatim>\<open>authenticate\<close> throws, and the one connection opened before the
  expiration is still the only one.
\<close>

theorem expired_manager_opens_no_connection_witness:
  "fst (authenticate example_env example_credentials
          (run example_env [NavigatorOnline] (onRemoteExpiration connecting_manager))) =
     Threw (HTTPError 0)
   \<and> connects (snd (authenticate example_env example_credentials
          (run example_env [NavigatorOnline] (onRemoteExpiration connecting_manager)))) =
     [WebSocketConn ''authenticated'' [(''login'', ''alice''), (''password'', ''secret'')]]
   \<and> fst (getUnauthenticatedResource example_env
          (run example_env [NavigatorOnline] (onRemoteExpiration connecting_manager))) =
     Threw (HTTPError 0)"
proof -
  have c: "connects (run example_env [NavigatorOnline] (onRemoteExpiration connecting_manager)) =
             [WebSocketConn ''authenticated'' [(''login'', ''alice''), (''password'', ''secret'')]]"
    "unauthenticated (run example_env [NavigatorOnline] (onRemoteExpiration connecting_manager)) =
             None"
    by code_simp+
  show ?thesis
    using expired_manager_opens_no_connection[where env = example_env
        and evs = "[NavigatorOnline]" and start = connecting_manager
        and creds = example_credentials and c = 0, OF refl] c
    by simp
qed

text \<open>
  C6 as the spec states it fails for \<^verbatim>\<open>getUnauthenticatedResource\<close>: at a
  remotely expired manager whose unauthenticated process 0 is connected, the call does not
  fail; it returns the result of that process.
\<close>

theorem expired_getUnauthenticatedResource_counterexample:
  "isRemotelyExpired expired_with_unauthenticated
   \<and> procs expired_with_unauthenticated 0 = Some (UnauthenticatedProc, Connected)
   \<and> fst (getUnauthenticatedResource example_env expired_with_unauthenticated) =
       AwaitsExisting 0"
  by code_simp

subsection \<open>Transport option\<close>

text \<open>
  C7. For every proxy agent or none, host name, release channel and values of the remote
  flags, \<^verbatim>\<open>transportOption\<close> returns what the spec's table gives, where the host
  name is recognized when it ends in \<^verbatim>\<open>signal.org\<close>, opting out in alpha and in
  beta is the flag of that channel not being enabled, and the flag for production is the one
  of that channel.
\<close>

theorem transportOption_table:
  "transportOption env opts proxyAgent =
     spec_transport_variant (proxyAgent \<noteq> None)
       (case parseHostname env (url opts) of None \<Rightarrow> False | Some h \<Rightarrow> endsWith h ''signal.org'')
       (releaseChannel env (version opts))
       (\<not> isEnabled env ''desktop.experimentalTransportEnabled.alpha'')
       (\<not> isEnabled env ''desktop.experimentalTransportEnabled.beta'')
       (isEnabled env ''desktop.experimentalTransportEnabled.prod'')"
  by (cases "releaseChannel env (version opts)")
     (simp_all add: transportOption_def spec_transport_variant_def isStaging_def isAlpha_def
       isBeta_def Let_def split: option.splits)

text \<open>
  The theorem at a beta build on \<^verbatim>\<open>chat.signal.org\<close> without a proxy and with no
  flag enabled, and at the same build behind the proxy agent 3.
\<close>

theorem transportOption_table_witness:
  "transportOption (example_env\<lparr>releaseChannel := (\<lambda>v. Beta)\<rparr>) example_options None =
     ShadowingLow
   \<and> transportOption (example_env\<lparr>releaseChannel := (\<lambda>v. Beta)\<rparr>) example_options (Some 3) =
     Original"
  unfolding transportOption_table
  by (simp add: spec_transport_variant_def example_env_def example_options_def endsWith_def
      suffix_def)

subsection \<open>The body of a fetch\<close>

lemma bodyBytes_accepted:
  "accepted_body b \<longleftrightarrow> (\<exists>bb. bodyBytes env b = Inr bb)"
  by (cases b) (simp_all add: bodyBytes_def accepted_body_def)

lemma bodyBytes_rejected:
  "\<not> accepted_body b \<Longrightarrow> \<exists>msg. bodyBytes env b = Inl (Error msg)"
  by (cases b) (simp_all add: bodyBytes_def accepted_body_def)

lemma fetch_send_rejected:
  assumes "\<not> accepted_body (init_body init)"
  shows "(\<exists>msg. fst (fetch_send env r u init s) = Inl (Error msg)) \<and> snd (fetch_send env r u init s) = s"
proof -
  from bodyBytes_rejected[OF assms, of env] obtain msg
    where "bodyBytes env (init_body init) = Inl (Error msg)" ..
  then show ?thesis
    by (cases "parsePath env u") (simp_all add: fetch_send_def)
qed

lemma fetch_send_accepted:
  assumes "bodyBytes env (init_body init) = Inr bb"
    and "parsePath env u = Some pth" and "pth \<noteq> []"
    and "req = \<lparr>verb = (case init_method init of None \<Rightarrow> ''GET'' | Some m \<Rightarrow> m),
                 path = pth, body = bb, headers = init_headers init,
                 timeout = init_timeout init\<rparr>"
  shows "fetch_send env r u init s = (sendRequest env r req, s\<lparr>sent := sent s @ [(r, req)]\<rparr>)"
  using assms by (simp add: fetch_send_def Let_def)

text \<open>
  C8, as amended. In every call of \<^verbatim>\<open>fetch\<close> that has got its resource: a
  body that is absent, a \<^verbatim>\<open>Uint8Array\<close> or a string is accepted (the bytes as
  they are, the string through \<^verbatim>\<open>Bytes.fromString\<close>) and, the URL having a
  path, is put into the one request that is sent on the resource; any other body (an
  \<^verbatim>\<open>ArrayBuffer\<close> among them) makes the call throw an \<^verbatim>\<open>Error\<close>
  there, with no request sent and nothing changed.
\<close>

theorem fetch_body_types:
  assumes "res = fetch_send env r u init s"
  shows "bodyBytes env BodyUndefined = Inr None
       \<and> bodyBytes env (BodyUint8Array bs) = Inr (Some bs)
       \<and> bodyBytes env (BodyString str) = Inr (Some (fromString env str))
       \<and> (accepted_body (init_body init) \<longleftrightarrow> (\<exists>bb. bodyBytes env (init_body init) = Inr bb))
       \<and> (accepted_body (init_body init) \<and> parsePath env u = Some pth \<and> pth \<noteq> [] \<longrightarrow>
            (\<exists>req. bodyBytes env (init_body init) = Inr (body req) \<and> path req = pth
                   \<and> fst res = sendRequest env r req
                   \<and> sent (snd res) = sent s @ [(r, req)]))
       \<and> (\<not> accepted_body (init_body init) \<longrightarrow>
            (\<exists>msg. fst res = Inl (Error msg)) \<and> snd res = s)"
proof -
  have conv: "bodyBytes env BodyUndefined = Inr None"
    "bodyBytes env (BodyUint8Array bs) = Inr (Some bs)"
    "bodyBytes env (BodyString str) = Inr (Some (fromString env str))"
    by (simp_all add: bodyBytes_def)
  have sends: "\<exists>req. bodyBytes env (init_body init) = Inr (body req) \<and> path req = pth
                   \<and> fst res = sendRequest env r req
                   \<and> sent (snd res) = sent s @ [(r, req)]"
    if a: "accepted_body (init_body init)" and p: "parsePath env u = Some pth" "pth \<noteq> []"
  proof -
    from a obtain bb where bb: "bodyBytes env (init_body init) = Inr bb"
      unfolding bodyBytes_accepted[of _ env] ..
    define req where "req = \<lparr>verb = (case init_method init of None \<Rightarrow> ''GET'' | Some m \<Rightarrow> m),
                 path = pth, body = bb, headers = init_headers init,
                 timeout = init_timeout init\<rparr>"
    have "res = (sendRequest env r req, s\<lparr>sent := sent s @ [(r, req)]\<rparr>)"
      unfolding assms by (rule fetch_send_accepted[OF bb p req_def])
    moreover have "body req = bb" "path req = pth" by (simp_all add: req_def)
    ultimately have "bodyBytes env (init_body init) = Inr (body req) \<and> path req = pth
                   \<and> fst res = sendRequest env r req
                   \<and> sent (snd res) = sent s @ [(r, req)]"
      using bb by simp
    then show ?thesis ..
  qed
  from conv bodyBytes_accepted[of "init_body init" env] sends
    fetch_send_rejected[of init env r u s] assms
  show ?thesis by blast
qed

text \<open>
  The theorem at a manager with the connected process 0: a request with an
  \<^verbatim>\<open>ArrayBuffer\<close> throws and sends nothing, one with text sends one request.
\<close>

theorem fetch_body_types_witness:
  "accepted_body (init_body (example_init (BodyString ''hi'')))
   \<and> parsePath example_env ''https://chat.signal.org/v1/config'' = Some ''/v1/config''
   \<and> \<not> accepted_body (init_body (example_init (BodyArrayBuffer [1, 2])))
   \<and> (\<exists>msg. fst (fetch_send example_env 0 ''https://chat.signal.org/v1/config''
         (example_init (BodyArrayBuffer [1, 2]))
         (run example_env connected_events (new_manager example_options))) = Inl (Error msg))
   \<and> sent (snd (fetch_send example_env 0 ''https://chat.signal.org/v1/config''
         (example_init (BodyArrayBuffer [1, 2]))
         (run example_env connected_events (new_manager example_options)))) =
       sent (run example_env connected_events (new_manager example_options))
   \<and> length (sent (snd (fetch_send example_env 0 ''https://chat.signal.org/v1/config''
         (example_init (BodyString ''hi''))
         (run example_env connected_events (new_manager example_options))))) =
       length (sent (run example_env connected_events (new_manager example_options))) + 1"
proof -
  let ?s = "run example_env connected_events (new_manager example_options)"
  let ?u = "''https://chat.signal.org/v1/config''"
  have p: "parsePath example_env ?u = Some ''/v1/config''"
    by (simp add: example_env_def)
  have ne: "''/v1/config'' \<noteq> []" by simp
  have b: "accepted_body (init_body (example_init (BodyString ''hi'')))"
    and nb: "\<not> accepted_body (init_body (example_init (BodyArrayBuffer [1, 2])))"
    by (simp_all add: example_init_def accepted_body_def)
  have rejected: "(\<exists>msg. fst (fetch_send example_env 0 ?u
        (example_init (BodyArrayBuffer [1, 2])) ?s) = Inl (Error msg))
      \<and> snd (fetch_send example_env 0 ?u (example_init (BodyArrayBuffer [1, 2])) ?s) = ?s"
    using fetch_body_types[where r = 0 and init = "example_init (BodyArrayBuffer [1, 2])"
        and s = ?s and env = example_env and u = ?u, OF refl] nb
    by blast
  have "\<exists>req. sent (snd (fetch_send example_env 0 ?u (example_init (BodyString ''hi'')) ?s)) =
      sent ?s @ [(0, req)]"
    using fetch_body_types[where r = 0 and init = "example_init (BodyString ''hi'')"
        and s = ?s and env = example_env and u = ?u and pth = "''/v1/config''", OF refl] p b ne
    by blast
  then obtain req where "sent (snd (fetch_send example_env 0 ?u
      (example_init (BodyString ''hi'')) ?s)) = sent ?s @ [(0, req)]" ..
  then have accepted: "length (sent (snd (fetch_send example_env 0 ?u
      (example_init (BodyString ''hi'')) ?s))) = length (sent ?s) + 1"
    by simp
  from rejected have same: "sent (snd (fetch_send example_env 0 ?u
      (example_init (BodyArrayBuffer [1, 2])) ?s)) = sent ?s"
    by simp
  from p b nb rejected same accepted show ?thesis
    by blast
qed

text \<open>
  C8 as the spec states it fails: the body is looked at only after the resource has been
  awaited. At a new manager a call with an \<^verbatim>\<open>ArrayBuffer\<close> does not throw
  but is suspended at the proxy agent; it goes on to open the unauthenticated connection and,
  once that has connected, to arm the expiration timer; only then does it throw for the body.
  At a remotely expired manager the same call throws the \<^verbatim>\<open>HTTPError\<close>
  with the code 0, not the error for the body. And a call with a string, for a URL without a
  path, throws and sends nothing.
\<close>

theorem fetch_body_checked_late_counterexample:
  "\<not> accepted_body (init_body (example_init (BodyArrayBuffer [1, 2])))
   \<and> fst (fetch_resource example_env (example_init (BodyArrayBuffer [1, 2]))
          (new_manager example_options)) = Suspends (GetUnauthenticatedAtProxy (Inr None))
   \<and> connects (run example_env
          [Fetch (example_init (BodyArrayBuffer [1, 2])), Resumes]
          (new_manager example_options)) = [WebSocketConn ''unauthenticated'' []]
   \<and> expirationTimers (run example_env
          [Fetch (example_init (BodyArrayBuffer [1, 2])), Resumes, ProcessConnected 0,
           Continues 0, FetchArmsTimer 0]
          (new_manager example_options)) = [(1, 0)]
   \<and> fst (fetch_send example_env 0 ''https://chat.signal.org/v1/config''
          (example_init (BodyArrayBuffer [1, 2]))
          (run example_env
             [Fetch (example_init (BodyArrayBuffer [1, 2])), Resumes, ProcessConnected 0,
              Continues 0, FetchArmsTimer 0]
             (new_manager example_options))) =
       Inl (Error ''Unsupported body type: ArrayBuffer'')
   \<and> fst (fetch_resource example_env (example_init (BodyArrayBuffer [1, 2]))
          expired_connecting_manager) = Threw (HTTPError 0)
   \<and> accepted_body (init_body (example_init (BodyString ''hi'')))
   \<and> fst (fetch_send (example_env\<lparr>parsePath := (\<lambda>u. None)\<rparr>) 0
          ''https://chat.signal.org'' (example_init (BodyString ''hi''))
          (new_manager example_options)) = Inl (Error ''Fetch can't have empty path'')
   \<and> sent (snd (fetch_send (example_env\<lparr>parsePath := (\<lambda>u. None)\<rparr>) 0
          ''https://chat.signal.org'' (example_init (BodyString ''hi''))
          (new_manager example_options))) = []"
  by code_simp

subsection \<open>Dropping the authenticated process\<close>

text \<open>
  C9. Whenever the current authenticated process is dropped, by
  \<^verbatim>\<open>dropAuthenticated\<close> itself, by the close listener or by the failure of the
  connection, the queue of buffered requests is empty afterwards, and a handler that registers
  next is handed nothing.
\<close>

theorem drop_discards_buffered_requests:
  assumes "authenticated s = Some p"
  shows "incomingRequestQueue (dropAuthenticated p s) = []
       \<and> incomingRequestQueue (authenticated_close_listener p code s) = []
       \<and> incomingRequestQueue (authenticate_failed p err s) = []
       \<and> handled (registerRequestHandler h (authenticated_close_listener p code s)) = handled s
       \<and> handled (registerRequestHandler h (authenticate_failed p err s)) = handled s"
  using assms
  by (cases err)
     (simp_all add: authenticated_close_listener_def authenticate_failed_def Let_def
       reconnect_helper_scheduled registerRequestHandler_def emit_def)

text \<open>
  The theorem at a run: process 0 connects, the requests 10 and 11 arrive with no handler
  registered and are buffered, the resource closes with the code 1006, and the handler 7 that
  registers afterwards is handed nothing.
\<close>

theorem drop_discards_buffered_requests_witness:
  "authenticated (run example_env
       (connected_events @ [IncomingRequest 0 10, IncomingRequest 0 11])
       (new_manager example_options)) = Some 0
   \<and> incomingRequestQueue (run example_env
       (connected_events @ [IncomingRequest 0 10, IncomingRequest 0 11])
       (new_manager example_options)) = [10, 11]
   \<and> handled (registerRequestHandler 7 (authenticated_close_listener 0 1006 (run example_env
       (connected_events @ [IncomingRequest 0 10, IncomingRequest 0 11])
       (new_manager example_options)))) = []"
proof -
  have h: "authenticated (run example_env
       (connected_events @ [IncomingRequest 0 10, IncomingRequest 0 11])
       (new_manager example_options)) = Some 0"
    by code_simp
  have q: "incomingRequestQueue (run example_env
       (connected_events @ [IncomingRequest 0 10, IncomingRequest 0 11])
       (new_manager example_options)) = [10, 11]"
    "handled (run example_env
       (connected_events @ [IncomingRequest 0 10, IncomingRequest 0 11])
       (new_manager example_options)) = []"
    by code_simp+
  show ?thesis
    using drop_discards_buffered_requests[where code = 1006 and err = "Error []" and h = 7,
        OF h] h q
    by simp
qed

subsection \<open>Reuse of the unauthenticated process\<close>

text \<open>
  C10. If an unauthenticated process exists, \<^verbatim>\<open>getUnauthenticatedResource\<close>
  returns the result of that process and changes nothing, whether or not the manager is
  remotely expired; the check for remote expiration throws only when no unauthenticated
  process exists.
\<close>

theorem unauthenticated_reuse_precedes_expiration:
  "(unauthenticated s = Some p \<longrightarrow> getUnauthenticatedResource env s = (AwaitsExisting p, s))
   \<and> (unauthenticated s = None \<and> isRemotelyExpired s \<longrightarrow>
        getUnauthenticatedResource env s = (Threw (HTTPError 0), s))"
  by (simp add: getUnauthenticatedResource_def)

text \<open>
  The theorem at two remotely expired managers, one with the unauthenticated process 0 and
  one with none.
\<close>

theorem unauthenticated_reuse_precedes_expiration_witness:
  "unauthenticated expired_with_unauthenticated = Some 0
   \<and> isRemotelyExpired expired_with_unauthenticated
   \<and> getUnauthenticatedResource example_env expired_with_unauthenticated =
       (AwaitsExisting 0, expired_with_unauthenticated)
   \<and> unauthenticated expired_connecting_manager = None
   \<and> isRemotelyExpired expired_connecting_manager
   \<and> getUnauthenticatedResource example_env expired_connecting_manager =
       (Threw (HTTPError 0), expired_connecting_manager)"
proof -
  have h: "unauthenticated expired_with_unauthenticated = Some 0"
    "isRemotelyExpired expired_with_unauthenticated"
    "unauthenticated expired_connecting_manager = None"
    "isRemotelyExpired expired_connecting_manager"
    by code_simp+
  show ?thesis
    using unauthenticated_reuse_precedes_expiration[where s = expired_with_unauthenticated
        and p = 0 and env = example_env]
      unauthenticated_reuse_precedes_expiration[where s = expired_connecting_manager
        and p = 0 and env = example_env] h
    by simp
qed

end
